theory Spec2Isabelle
  imports Complex_Main "HOL-Library.Word" "HOL-Library.AList"
begin

section \<open>Errors and byte strings\<close>

text \<open>A Go \<open>[]byte\<close> or \<open>string\<close> is a sequence of 8-bit characters.\<close>

type_synonym bytes = "char list"

text \<open>
  Every error value that the modelled functions of \<open>sdnsdk\<close> can return. The two
  sentinels \<open>ErrSDNUnavailable\<close> and \<open>ErrNoRelays\<close> are package variables of
  \<open>sdk.go\<close>; the other constructors stand for the \<open>fmt.Errorf\<close> values built at
  the places named in the comments, carrying the data the message is formatted from.
\<close>

datatype error =
    ErrSDNUnavailable
  | ErrNoRelays
  | ErrClient                     \<comment> \<open>\<open>httpClient\<close> could not load a TLS configuration\<close>
  | ErrTransport                  \<comment> \<open>\<open>client.Get\<close> / \<open>client.Post\<close> failed\<close>
  | ErrReadResponse nat           \<comment> \<open>could not read response\<close>
  | ErrDeserialize bytes          \<comment> \<open>could not deserialize ... response\<close>
  | ErrStatus nat string          \<comment> \<open>received a [status]: details\<close>
  | ErrNotExist string            \<comment> \<open>\<open>os.Open\<close>: no such file\<close>
  | ErrPermission string          \<comment> \<open>\<open>os.Open\<close> / \<open>os.OpenFile\<close>: permission denied\<close>
  | ErrCacheLoad error string error
      \<comment> \<open>got error from http request ... and can't load cache file\<close>
  | ErrNoRelayArgs                \<comment> \<open>no --relays/relay-ip arguments were provided\<close>
  | ErrEmptyRelayArg              \<comment> \<open>argument ... is empty or has an extra comma\<close>
  | ErrRelayFormat string         \<comment> \<open>relay ... was given in the incorrect format\<close>
  | ErrPort string                \<comment> \<open>port provided ... is not valid\<close>
  | ErrHostLookup string          \<comment> \<open>host provided ... is not valid\<close>
  | ErrHostNoIPs string           \<comment> \<open>host provided ... has no IPs behind the domain name\<close>
  | ErrRelayList error            \<comment> \<open>failed to extract relay list\<close>
  | ErrAccountModel error         \<comment> \<open>could not get account model from SDN\<close>
  | ErrCopier                     \<comment> \<open>an error of \<open>copier.CopyWithOption\<close>\<close>

section \<open>Strings, paths and floating-point numbers\<close>

text \<open>\<open>strings.Split(s, sep)\<close> for a separator of one byte: one piece more than separators.\<close>

fun strings_Split :: "string \<Rightarrow> char \<Rightarrow> string list" where
  "strings_Split [] sep = [[]]"
| "strings_Split (c # cs) sep =
     (if c = sep then [] # strings_Split cs sep
      else case strings_Split cs sep of
             [] \<Rightarrow> [[c]]
           | t # ts \<Rightarrow> (c # t) # ts)"

text \<open>\<open>strings.Trim(s, cutset)\<close> for a cutset of one byte.\<close>

definition strings_Trim :: "string \<Rightarrow> char \<Rightarrow> string" where
  "strings_Trim s c = rev (dropWhile (\<lambda>x. x = c) (rev (dropWhile (\<lambda>x. x = c) s)))"

text \<open>
  \<open>path.Clean\<close>: runs of slashes become one slash, every \<open>.\<close> element goes, every
  inner \<open>..\<close> goes together with the element before it, a \<open>..\<close> at the start of a
  rooted path goes, and the empty result is \<open>.\<close>.
\<close>

fun path_unsplit :: "string list \<Rightarrow> string" where
  "path_unsplit [] = []"
| "path_unsplit [x] = x"
| "path_unsplit (x # y # ys) = x @ ''/'' @ path_unsplit (y # ys)"

definition path_Clean :: "string \<Rightarrow> string" where
  "path_Clean p =
     (if p = [] then ''.''
      else
        let rooted = (hd p = CHR ''/'');
            elems = filter (\<lambda>el. el \<noteq> []) (strings_Split p (CHR ''/''));
            stack = fold (\<lambda>el st.
                            if el = ''.'' then st
                            else if el = ''..'' then
                              (if st \<noteq> [] \<and> last st \<noteq> ''..'' then butlast st
                               else if rooted then st
                               else st @ [''..''])
                            else st @ [el])
                         elems [];
            out = (if rooted then ''/'' else []) @ path_unsplit stack
        in if out = [] then ''.'' else out)"

text \<open>
  \<open>path.Join(dataDir, fileName)\<close>: empty elements are ignored, the others are joined by
  a slash, and the result is cleaned; two empty elements give the empty string.
\<close>

definition path_join :: "string \<Rightarrow> string \<Rightarrow> string" where
  "path_join dataDir fileName =
     (if dataDir = [] \<and> fileName = [] then []
      else path_Clean (if dataDir = [] then fileName else dataDir @ ''/'' @ fileName))"

text \<open>
  A \<open>float64\<close>: the finite value \<open>m * 2 ^ e\<close>, an infinity, or not a number. The two
  zeros of IEEE 754 compare equal and are not told apart.
\<close>

datatype float64 = Finite int int | PosInf | NegInf | NaN

text \<open>The number of binary digits of a natural number.\<close>

fun bitlen :: "nat \<Rightarrow> nat" where
  "bitlen n = (if n = 0 then 0 else Suc (bitlen (n div 2)))"

declare bitlen.simps [simp del]

text \<open>
  The \<open>float64\<close> nearest to \<open>M * 2 ^ E\<close>, ties to the even significand: 53 binary
  digits, no exponent of the last digit below \<open>-1074\<close>, and an infinity from
  \<open>2 ^ 1024\<close> on.
\<close>

definition round_dyadic :: "int \<Rightarrow> int \<Rightarrow> float64" where
  "round_dyadic M E =
     (if M = 0 then Finite 0 0
      else
        let u = max (int (bitlen (nat \<bar>M\<bar>)) + E - 53) (- 1074) in
        if u \<le> E then
          (if int (bitlen (nat \<bar>M\<bar>)) + E > 1024
           then (if M < 0 then NegInf else PosInf)
           else Finite M E)
        else
          let s = nat (u - E);
              q = M div 2 ^ s;
              r = M mod 2 ^ s;
              half = 2 ^ (s - 1);
              q' = (if r < half then q
                    else if half < r then q + 1
                    else if even q then q else q + 1)
          in if int (bitlen (nat \<bar>q'\<bar>)) + u > 1024
             then (if M < 0 then NegInf else PosInf)
             else Finite q' u)"

text \<open>\<open>a + b\<close> on \<open>float64\<close>: the exact sum, rounded.\<close>

definition f64_add :: "float64 \<Rightarrow> float64 \<Rightarrow> float64" where
  "f64_add a b =
     (case a of
        NaN \<Rightarrow> NaN
      | PosInf \<Rightarrow> (case b of NaN \<Rightarrow> NaN | NegInf \<Rightarrow> NaN | _ \<Rightarrow> PosInf)
      | NegInf \<Rightarrow> (case b of NaN \<Rightarrow> NaN | PosInf \<Rightarrow> NaN | _ \<Rightarrow> NegInf)
      | Finite m1 e1 \<Rightarrow>
          (case b of
             NaN \<Rightarrow> NaN
           | PosInf \<Rightarrow> PosInf
           | NegInf \<Rightarrow> NegInf
           | Finite m2 e2 \<Rightarrow>
               (let e = min e1 e2
                in round_dyadic (m1 * 2 ^ nat (e1 - e) + m2 * 2 ^ nat (e2 - e)) e)))"

definition f64_neg :: "float64 \<Rightarrow> float64" where
  "f64_neg a =
     (case a of
        NaN \<Rightarrow> NaN | PosInf \<Rightarrow> NegInf | NegInf \<Rightarrow> PosInf | Finite m e \<Rightarrow> Finite (- m) e)"

text \<open>\<open>a - b\<close> on \<open>float64\<close>.\<close>

definition f64_sub :: "float64 \<Rightarrow> float64 \<Rightarrow> float64" where
  "f64_sub a b = f64_add a (f64_neg b)"

text \<open>\<open>a < b\<close> on \<open>float64\<close>: false as soon as one side is not a number.\<close>

definition f64_lt :: "float64 \<Rightarrow> float64 \<Rightarrow> bool" where
  "f64_lt a b =
     (case a of
        NaN \<Rightarrow> False
      | PosInf \<Rightarrow> False
      | NegInf \<Rightarrow> (case b of NaN \<Rightarrow> False | NegInf \<Rightarrow> False | _ \<Rightarrow> True)
      | Finite m1 e1 \<Rightarrow>
          (case b of
             NaN \<Rightarrow> False
           | PosInf \<Rightarrow> True
           | NegInf \<Rightarrow> False
           | Finite m2 e2 \<Rightarrow>
               (let e = min e1 e2
                in m1 * 2 ^ nat (e1 - e) < m2 * 2 ^ nat (e2 - e))))"

text \<open>\<open>a >= b\<close> on \<open>float64\<close>.\<close>

definition f64_ge :: "float64 \<Rightarrow> float64 \<Rightarrow> bool" where
  "f64_ge a b = (a \<noteq> NaN \<and> b \<noteq> NaN \<and> \<not> f64_lt a b)"

text \<open>The real number a finite \<open>float64\<close> stands for.\<close>

definition f64_value :: "float64 \<Rightarrow> real" where
  "f64_value a =
     (case a of
        Finite m e \<Rightarrow> (if 0 \<le> e then of_int m * 2 ^ nat e else of_int m / 2 ^ nat (- e))
      | _ \<Rightarrow> 0)"

text \<open>
  \<open>sort.Slice(xs, lessf)\<close>. The library leaves the order of elements that \<open>lessf\<close>
  does not separate open; the model inserts one element after the other and keeps such
  elements in the order they came in.
\<close>

fun insert_by :: "('a \<Rightarrow> 'a \<Rightarrow> bool) \<Rightarrow> 'a \<Rightarrow> 'a list \<Rightarrow> 'a list" where
  "insert_by lessf x [] = [x]"
| "insert_by lessf x (y # ys) =
     (if lessf y x then y # insert_by lessf x ys else x # y # ys)"

definition sort_Slice :: "('a \<Rightarrow> 'a \<Rightarrow> bool) \<Rightarrow> 'a list \<Rightarrow> 'a list" where
  "sort_Slice lessf xs = foldr (insert_by lessf) xs []"

section \<open>The cache directory\<close>

text \<open>
  The part of the operating system that \<open>UpdateCacheFile\<close> and \<open>LoadCacheFile\<close>
  touch: the regular files with their contents, and the paths the process is refused to
  open. Write errors after a successful open (a full disk) are not modelled.
\<close>

record filesystem =
  files :: "string \<rightharpoonup> bytes"
  denied :: "string \<Rightarrow> bool"

text \<open>\<open>os.Open\<close> followed by \<open>io.ReadAll\<close>.\<close>

definition os_Open :: "filesystem \<Rightarrow> string \<Rightarrow> error + bytes" where
  "os_Open fs name =
     (if denied fs name then Inl (ErrPermission name)
      else case files fs name of
             None \<Rightarrow> Inl (ErrNotExist name)
           | Some c \<Rightarrow> Inr c)"

text \<open>
  \<open>os.OpenFile(name, os.O_CREATE|os.O_WRONLY, 0644)\<close>: the file is created empty when
  it does not exist; an existing file keeps its contents, since the flags hold neither
  \<open>O_TRUNC\<close> nor \<open>O_APPEND\<close>. The handle starts at offset 0.
\<close>

definition os_OpenFile_CREATE_WRONLY :: "filesystem \<Rightarrow> string \<Rightarrow> error + filesystem" where
  "os_OpenFile_CREATE_WRONLY fs name =
     (if denied fs name then Inl (ErrPermission name)
      else case files fs name of
             None \<Rightarrow> Inr (fs\<lparr>files := (files fs)(name \<mapsto> [])\<rparr>)
           | Some c \<Rightarrow> Inr fs)"

text \<open>
  Writing \<open>value\<close> through the handle at offset 0 replaces the first \<open>len(value)\<close>
  bytes of the file and leaves the bytes behind them in place.
\<close>

definition write_at_start :: "filesystem \<Rightarrow> string \<Rightarrow> bytes \<Rightarrow> filesystem" where
  "write_at_start fs name val =
     (case files fs name of
        None \<Rightarrow> fs
      | Some old \<Rightarrow> fs\<lparr>files := (files fs)(name \<mapsto> val @ drop (length val) old)\<rparr>)"

definition UpdateCacheFile ::
  "filesystem \<Rightarrow> string \<Rightarrow> string \<Rightarrow> bytes \<Rightarrow> error option \<times> filesystem" where
  "UpdateCacheFile fs dataDir fileName val =
     (let cacheFileName = path_join dataDir fileName in
      case os_OpenFile_CREATE_WRONLY fs cacheFileName of
        Inl err \<Rightarrow> (Some err, fs)
      | Inr fs1 \<Rightarrow> (None, write_at_start fs1 cacheFileName val))"

definition LoadCacheFile :: "filesystem \<Rightarrow> string \<Rightarrow> string \<Rightarrow> error + bytes" where
  "LoadCacheFile fs dataDir fileName =
     (let cacheFileName = path_join dataDir fileName in
      case os_Open fs cacheFileName of
        Inl err \<Rightarrow> Inl err
      | Inr c \<Rightarrow> Inr c)"

section \<open>The HTTP layer\<close>

text \<open>
  What one HTTP exchange with the directory can come to: no client (the TLS
  configuration failed to load), a transport error, or a response with its status code
  and the outcome of reading its body. The client of \<open>net/http\<close> never hands out a
  response with a nil body.
\<close>

datatype body = BodyError | Body bytes

datatype exchange = ClientError | TransportError | Response nat body

text \<open>
  \<open>realSDNHTTP.http\<close>. \<open>unmarshalErrorMessage\<close> stands for \<open>json.Unmarshal\<close> into a
  \<open>message.ErrorMessage\<close> followed by reading its \<open>Details\<close>.
\<close>

definition http :: "(bytes \<Rightarrow> string option) \<Rightarrow> exchange \<Rightarrow> error + bytes" where
  "http unmarshalErrorMessage ex =
     (case ex of
        ClientError \<Rightarrow> Inl ErrClient
      | TransportError \<Rightarrow> Inl ErrTransport
      | Response statusCode b \<Rightarrow>
          if statusCode \<noteq> 200 then
            (if statusCode = 503 then Inl ErrSDNUnavailable
             else case b of
                    BodyError \<Rightarrow> Inl (ErrReadResponse statusCode)
                  | Body bs \<Rightarrow>
                      (case unmarshalErrorMessage bs of
                         None \<Rightarrow> Inl (ErrDeserialize bs)
                       | Some details \<Rightarrow> Inl (ErrStatus statusCode details)))
          else (case b of
                  BodyError \<Rightarrow> Inl (ErrReadResponse statusCode)
                | Body bs \<Rightarrow> Inr bs))"

text \<open>
  \<open>realSDNHTTP.httpWithCache\<close>, with the receiver's \<open>dataDir\<close> and the file system
  passed explicitly. The error of \<open>UpdateCacheFile\<close> is logged and dropped.
\<close>

definition httpWithCache ::
  "(bytes \<Rightarrow> string option) \<Rightarrow> string \<Rightarrow> string \<Rightarrow> exchange \<Rightarrow> filesystem
     \<Rightarrow> (error + bytes) \<times> filesystem" where
  "httpWithCache unmarshalErrorMessage dataDir fileName ex fs =
     (case http unmarshalErrorMessage ex of
        Inl httpErr \<Rightarrow>
          if httpErr = ErrSDNUnavailable then
            (case LoadCacheFile fs dataDir fileName of
               Inl err \<Rightarrow> (Inl (ErrCacheLoad httpErr fileName err), fs)
             | Inr data \<Rightarrow> (Inr data, fs))
          else (Inl httpErr, fs)
      | Inr data \<Rightarrow>
          (case UpdateCacheFile fs dataDir fileName data of
             (err, fs') \<Rightarrow> (Inr data, fs')))"

section \<open>Data model of the relay controller and the directory session\<close>

record Peer =
  peer_IP :: string
  peer_Port :: int


record nodeLatencyInfo =
  nli_IP :: string
  nli_Port :: int
  nli_Latency :: float64

text \<open>
  Modelled from the spec: the declaration of \<open>types.RelayInfo\<close> is missing; an entry
  of the ignored-relays map holds \<open>timeAdded\<close>, \<open>port\<close>, \<open>isConnected\<close>,
  \<open>isStatic\<close> and \<open>latency\<close>, the fields \<open>sdk.go\<close> reads and writes.
  \<open>TimeAdded\<close> is a clock reading.
\<close>

record RelayInfo =
  TimeAdded :: nat
  IsConnected :: bool
  IsStatic :: bool
  info_Port :: int
  info_Latency :: float64

datatype ConnInstructionType = Connect | Disconnect | Switch

record RelayInstruction =
  instr_IP :: string
  instr_Type :: ConnInstructionType
  instr_Port :: int
  instr_IsStatic :: bool
  RelaysToSwitch :: "nodeLatencyInfo list"

record relayToSwitch =
  rts_ip :: string
  rts_port :: int

record autoRelay =
  ar_ip :: string
  ar_relayInfo :: RelayInfo

text \<open>\<open>relayMap\<close>: a relay's IP to its port. The list holds the entries in insertion order.\<close>

type_synonym relayMap = "(string \<times> int) list"

text \<open>
  Modelled from the spec: the implementation behind the interface \<open>IgnoredRelaysMap\<close>
  (package \<open>syncmap\<close>) is missing; it is a keyed store with \<open>Load\<close>, \<open>Store\<close>,
  \<open>LoadOrStore\<close> and \<open>Range\<close>. The store is an association list, whose order is the
  order in which \<open>Range\<close> visits the entries; calls are taken one after the other.
\<close>

type_synonym IgnoredRelaysMap = "(string \<times> RelayInfo) list"

definition Store :: "string \<Rightarrow> RelayInfo \<Rightarrow> IgnoredRelaysMap \<Rightarrow> IgnoredRelaysMap" where
  "Store key val m = AList.update key val m"

definition LoadOrStore ::
  "string \<Rightarrow> RelayInfo \<Rightarrow> IgnoredRelaysMap \<Rightarrow> (RelayInfo \<times> bool) \<times> IgnoredRelaysMap" where
  "LoadOrStore key val m =
     (case map_of m key of
        Some actual \<Rightarrow> ((actual, True), m)
      | None \<Rightarrow> ((val, False), AList.update key val m))"

text \<open>
  Modelled from the spec: the declarations of package \<open>message\<close> are missing. A
  blockchain network holds \<open>networkNum\<close>, \<open>protocol\<close>, \<open>minTxAgeSeconds\<close> and
  default attributes with \<open>terminalTotalDifficulty\<close>; an account is a
  quota-bearing record with \<open>relayLimit.msgQuota.limit\<close> and
  \<open>maxAllowedNodes.msgQuota.limit\<close>. The records hold the fields \<open>sdk.go\<close> and its
  tests use; \<open>BDNServiceLimit\<close> is an unsigned 64-bit number (the tests decode the
  limit \<open>13614113913969504939\<close> into it). \<open>FetchBlockchainNetwork\<close> compares the
  field \<open>TerminalTotalDifficulty\<close> with the constant 0 and assigns a \<open>*big.Int\<close> to
  it, which Go accepts for a field of the empty interface type only.
\<close>

text \<open>
  A value of the empty interface \<open>interface{}\<close> with its dynamic type. \<open>x == 0\<close>
  holds for such an \<open>x\<close> exactly when its dynamic type is \<open>int\<close> and its value 0,
  since the untyped constant takes its default type. \<open>json.Unmarshal\<close> stores
  \<open>nil\<close>, a \<open>bool\<close>, a \<open>float64\<close> (for every number), a \<open>string\<close>, or a slice
  or map (\<open>GoOther\<close>) in it; \<open>GoBigInt\<close> is a \<open>*big.Int\<close>.
\<close>

datatype go_any =
    GoNil | GoBool bool | GoInt int | GoFloat64 float64 | GoString string
  | GoBigInt int | GoOther

definition json_decoded :: "go_any \<Rightarrow> bool" where
  "json_decoded x =
     (case x of
        GoNil \<Rightarrow> True | GoBool b \<Rightarrow> True | GoFloat64 f \<Rightarrow> True | GoString t \<Rightarrow> True
      | GoOther \<Rightarrow> True | GoInt i \<Rightarrow> False | GoBigInt i \<Rightarrow> False)"

record DefaultAttributes =
  TerminalTotalDifficulty :: go_any

record BlockchainNetwork =
  NetworkNum :: "32 word"
  Protocol :: string
  MinTxAgeSeconds :: float64
  DefaultAttributes :: DefaultAttributes

type_synonym BlockchainNetworks = "32 word \<rightharpoonup> BlockchainNetwork"

record BDNService =
  Limit :: "64 word"

record BDNQuotaService =
  ExpireDate :: string
  MsgQuota :: BDNService

record Account =
  TierName :: string
  SecretHash :: string
  RelayLimit :: BDNQuotaService
  MaxAllowedNodes :: BDNQuotaService

record NodeModel =
  NodeID :: string
  AccountID :: string
  BlockchainNetworkNum :: "32 word"

text \<open>The receiver \<open>realSDNHTTP\<close>, with the fields the modelled methods use.\<close>

record realSDNHTTP =
  s_getPingLatencies :: "Peer list \<Rightarrow> nodeLatencyInfo list"
  s_networks :: BlockchainNetworks
  s_accountModel :: "Account option"
  s_dataDir :: string
  s_nodeModel :: NodeModel

text \<open>
  What the methods call outside the repository: \<open>json.Unmarshal\<close> at the types it is
  used with (a decoder into an existing value returns the value it leaves behind and
  whether it succeeded), the template \<open>message.GetDefaultEliteAccount\<close> and
  \<open>copier.CopyWithOption\<close> (destination, source), the lookups of package \<open>net\<close>, and
  the clock.
\<close>

record env =
  json_ErrorMessage :: "bytes \<Rightarrow> string option"
  json_Peers :: "bytes \<Rightarrow> Peer list option"
  json_BlockchainNetwork :: "bytes \<Rightarrow> BlockchainNetwork \<Rightarrow> BlockchainNetwork \<times> bool"
  json_BlockchainNetworks :: "bytes \<Rightarrow> BlockchainNetwork list option"
  json_Account :: "bytes \<Rightarrow> Account \<Rightarrow> Account \<times> bool"
  GetDefaultEliteAccount :: "nat \<Rightarrow> Account"
  copier_CopyWithOption :: "Account \<Rightarrow> Account \<Rightarrow> Account \<times> bool"
  net_ParseIP :: "string \<Rightarrow> bool"
  net_LookupHost :: "string \<Rightarrow> string list option"
  net_LookupIP :: "string \<Rightarrow> bool"
  time_Now :: nat

definition blockchainNetworksCacheFileName :: string where
  "blockchainNetworksCacheFileName = ''blockchainNetworks.json''"

definition blockchainNetworkCacheFileName :: string where
  "blockchainNetworkCacheFileName = ''blockchainNetwork.json''"

definition potentialRelaysFileName :: string where
  "potentialRelaysFileName = ''potentialrelays.json''"

definition accountModelsFileName :: string where
  "accountModelsFileName = ''accountmodel.json''"

definition latencyThreshold :: float64 where
  "latencyThreshold = Finite 10 0"

definition EthereumProtocol :: string where
  "EthereumProtocol = ''Ethereum''"

text \<open>\<open>math.MaxInt\<close> on a 64-bit platform.\<close>

definition math_MaxInt :: int where
  "math_MaxInt = 2 ^ 63 - 1"

section \<open>The relay specification parser\<close>

text \<open>
  \<open>strconv.Atoi\<close>: an optional sign, then one or more decimal digits, and the value has
  to fit a 64-bit \<open>int\<close>.
\<close>

definition is_digit :: "char \<Rightarrow> bool" where
  "is_digit c \<longleftrightarrow> (48::nat) \<le> of_char c \<and> of_char c \<le> (57::nat)"

definition digits_value :: "string \<Rightarrow> nat" where
  "digits_value ds = foldl (\<lambda>a c. 10 * a + (of_char c - 48)) 0 ds"

definition strconv_Atoi :: "string \<Rightarrow> int option" where
  "strconv_Atoi s =
     (let neg = (s \<noteq> [] \<and> hd s = CHR ''-'');
          ds = (if s \<noteq> [] \<and> (hd s = CHR ''-'' \<or> hd s = CHR ''+'') then tl s else s)
      in if ds = [] \<or> \<not> list_all is_digit ds then None
         else let v = (if neg then - int (digits_value ds) else int (digits_value ds))
              in if - (2 ^ 63) \<le> v \<and> v \<le> 2 ^ 63 - 1 then Some v else None)"

definition GetIP :: "env \<Rightarrow> string \<Rightarrow> error + string" where
  "GetIP e host =
     (if \<not> net_ParseIP e host then
        (case net_LookupHost e host of
           None \<Rightarrow> Inl (ErrHostLookup host)
         | Some ips \<Rightarrow>
             (case ips of
                [] \<Rightarrow> Inl (ErrHostNoIPs host)
              | ip0 # _ \<Rightarrow>
                  if \<not> net_LookupIP e ip0 then Inl (ErrHostLookup host) else Inr ip0))
      else Inr host)"

text \<open>
  The loop of \<open>parsedCmdlineRelays\<close> over the pieces of the specification, with the
  map and the counter it updates. \<open>autoCount\<close> is a Go \<open>int\<close>; it stays below the limit,
  an unsigned 64-bit number, and is a natural number here.
\<close>

fun parsedCmdlineRelays_loop ::
  "env \<Rightarrow> 64 word \<Rightarrow> string list \<Rightarrow> relayMap \<Rightarrow> nat \<Rightarrow> error + relayMap \<times> nat" where
  "parsedCmdlineRelays_loop e relayLimit [] overrideRelays autoCount =
     Inr (overrideRelays, autoCount)"
| "parsedCmdlineRelays_loop e relayLimit (relay # rest) overrideRelays autoCount =
     (if (of_nat (length overrideRelays + autoCount) :: 64 word) = relayLimit
      then Inr (overrideRelays, autoCount)
      else
        let suggestedRelayString = strings_Trim relay (CHR '' '') in
        if suggestedRelayString = ''auto''
        then parsedCmdlineRelays_loop e relayLimit rest overrideRelays (autoCount + 1)
        else if suggestedRelayString = [] then Inl ErrEmptyRelayArg
        else
          let suggestedRelaySplit = strings_Split suggestedRelayString (CHR '':'') in
          if length suggestedRelaySplit > 2 then Inl (ErrRelayFormat relay)
          else
            let host = hd suggestedRelaySplit in
            case (if length suggestedRelaySplit = 2
                  then (case strconv_Atoi (suggestedRelaySplit ! 1) of
                          None \<Rightarrow> Inl (ErrPort (suggestedRelaySplit ! 1))
                        | Some p \<Rightarrow> Inr p)
                  else Inr 1809) of
              Inl err \<Rightarrow> Inl err
            | Inr port \<Rightarrow>
                (case GetIP e host of
                   Inl err \<Rightarrow> Inl err
                 | Inr ip \<Rightarrow>
                     parsedCmdlineRelays_loop e relayLimit rest
                       (if map_of overrideRelays ip = None
                        then overrideRelays @ [(ip, port)] else overrideRelays)
                       autoCount))"

definition parsedCmdlineRelays :: "env \<Rightarrow> string \<Rightarrow> 64 word \<Rightarrow> error + relayMap \<times> nat" where
  "parsedCmdlineRelays e relayHosts relayLimit =
     (if length relayHosts = 0 then Inl ErrNoRelayArgs
      else parsedCmdlineRelays_loop e relayLimit (strings_Split relayHosts (CHR '','')) [] 0)"

text \<open>
  What one round of the loop makes of a piece once the limit check has let it through: an
  error, an \<open>auto\<close> placeholder (\<open>None\<close>), or a relay with its resolved IP and its
  port. The steps are those of the loop body; the properties of the parser are stated
  with it.
\<close>

definition tokenRelay :: "env \<Rightarrow> string \<Rightarrow> error + (string \<times> int) option" where
  "tokenRelay e relay =
     (let suggestedRelayString = strings_Trim relay (CHR '' '') in
      if suggestedRelayString = ''auto'' then Inr None
      else if suggestedRelayString = [] then Inl ErrEmptyRelayArg
      else
        let suggestedRelaySplit = strings_Split suggestedRelayString (CHR '':'') in
        if length suggestedRelaySplit > 2 then Inl (ErrRelayFormat relay)
        else
          let host = hd suggestedRelaySplit in
          case (if length suggestedRelaySplit = 2
                then (case strconv_Atoi (suggestedRelaySplit ! 1) of
                        None \<Rightarrow> Inl (ErrPort (suggestedRelaySplit ! 1))
                      | Some p \<Rightarrow> Inr p)
                else Inr 1809) of
            Inl err \<Rightarrow> Inl err
          | Inr port \<Rightarrow>
              (case GetIP e host of
                 Inl err \<Rightarrow> Inl err
               | Inr ip \<Rightarrow> Inr (Some (ip, port))))"

text \<open>
  The fatal token errors in the words of the specification: after trimming, a piece
  other than \<open>auto\<close> that is empty, holds more than one colon, holds one colon followed
  by something that is not an integer, or names a host that does not resolve.
\<close>

definition malformed :: "env \<Rightarrow> string \<Rightarrow> bool" where
  "malformed e relay =
     (let t = strings_Trim relay (CHR '' '') in
      t \<noteq> ''auto'' \<and>
      (t = [] \<or> count_list t (CHR '':'') > 1 \<or>
       (count_list t (CHR '':'') = 1 \<and>
          strconv_Atoi (strings_Split t (CHR '':'') ! 1) = None) \<or>
       (\<exists>err. GetIP e (hd (strings_Split t (CHR '':''))) = Inl err)))"

section \<open>The relay controller\<close>

text \<open>\<open>realSDNHTTP.getRelays\<close>; \<open>ex\<close> is the exchange its request comes to.\<close>

definition getRelays ::
  "realSDNHTTP \<Rightarrow> env \<Rightarrow> exchange \<Rightarrow> filesystem \<Rightarrow> (error + Peer list) \<times> filesystem" where
  "getRelays s e ex fs =
     (case httpWithCache (json_ErrorMessage e) (s_dataDir s) potentialRelaysFileName ex fs of
        (Inl err, fs') \<Rightarrow> (Inl err, fs')
      | (Inr resp, fs') \<Rightarrow>
          (case json_Peers e resp of
             None \<Rightarrow> (Inl (ErrDeserialize resp), fs')
           | Some relays \<Rightarrow> (Inr relays, fs')))"

text \<open>
  The loop of \<open>manageAutoRelays\<close> over the probe results. The instruction channel is the
  list \<open>out\<close> of the instructions sent so far.
\<close>

fun manageAutoRelays_loop ::
  "env \<Rightarrow> nat \<Rightarrow> nodeLatencyInfo list \<Rightarrow> nat \<Rightarrow> IgnoredRelaysMap \<Rightarrow> RelayInstruction list
     \<Rightarrow> IgnoredRelaysMap \<times> RelayInstruction list" where
  "manageAutoRelays_loop e autoRelayCount [] autoRelayCounter ignoredRelays out =
     (ignoredRelays, out)"
| "manageAutoRelays_loop e autoRelayCount (pingLatency # rest) autoRelayCounter ignoredRelays out =
     (case GetIP e (nli_IP pingLatency) of
        Inl err \<Rightarrow> manageAutoRelays_loop e autoRelayCount rest autoRelayCounter ignoredRelays out
      | Inr newRelayIP \<Rightarrow>
          (case LoadOrStore newRelayIP
                  \<lparr>TimeAdded = time_Now e, IsConnected = True, IsStatic = False,
                   info_Port = nli_Port pingLatency, info_Latency = Finite 0 0\<rparr> ignoredRelays of
             ((actual, ok), ignoredRelays') \<Rightarrow>
               if ok
               then manageAutoRelays_loop e autoRelayCount rest autoRelayCounter ignoredRelays' out
               else
                 let out' = out @ [\<lparr>instr_IP = newRelayIP, instr_Type = Connect,
                                      instr_Port = nli_Port pingLatency, instr_IsStatic = False,
                                      RelaysToSwitch = []\<rparr>]
                 in if autoRelayCounter + 1 = autoRelayCount then (ignoredRelays', out')
                    else manageAutoRelays_loop e autoRelayCount rest (autoRelayCounter + 1)
                           ignoredRelays' out'))"

definition manageAutoRelays ::
  "realSDNHTTP \<Rightarrow> env \<Rightarrow> nat \<Rightarrow> Peer list \<Rightarrow> IgnoredRelaysMap \<Rightarrow> RelayInstruction list
     \<Rightarrow> IgnoredRelaysMap \<times> RelayInstruction list" where
  "manageAutoRelays s e autoRelayCount relays ignoredRelays out =
     (let pingLatencies = s_getPingLatencies s relays in
      if length pingLatencies = 0 then (ignoredRelays, out)
      else manageAutoRelays_loop e autoRelayCount pingLatencies 0 ignoredRelays out)"

text \<open>
  The first loop of \<open>DirectRelayConnections\<close>: store and connect every relay of
  \<open>overrideRelays\<close>. Go visits a map in an order of its own; the list order is one of them.
\<close>

fun DirectRelayConnections_static ::
  "env \<Rightarrow> relayMap \<Rightarrow> IgnoredRelaysMap \<Rightarrow> RelayInstruction list
     \<Rightarrow> IgnoredRelaysMap \<times> RelayInstruction list" where
  "DirectRelayConnections_static e [] ignoredRelays out = (ignoredRelays, out)"
| "DirectRelayConnections_static e ((ip, port) # rest) ignoredRelays out =
     DirectRelayConnections_static e rest
       (Store ip \<lparr>TimeAdded = time_Now e, IsConnected = True, IsStatic = True,
                  info_Port = port, info_Latency = Finite 0 0\<rparr> ignoredRelays)
       (out @ [\<lparr>instr_IP = ip, instr_Type = Connect, instr_Port = port, instr_IsStatic = True,
                 RelaysToSwitch = []\<rparr>])"

text \<open>
  \<open>DirectRelayConnections\<close> returns its error, the instructions sent on the channel, the
  ignored-relays map and the disk. The goroutine it starts for \<open>manageAutoRelays\<close> is
  run to its end before the result is taken.
\<close>

definition DirectRelayConnections ::
  "realSDNHTTP \<Rightarrow> env \<Rightarrow> string \<Rightarrow> 64 word \<Rightarrow> exchange \<Rightarrow> filesystem \<Rightarrow> IgnoredRelaysMap
     \<Rightarrow> error option \<times> RelayInstruction list \<times> IgnoredRelaysMap \<times> filesystem" where
  "DirectRelayConnections s e relayHosts relayLimit ex fs ignoredRelays =
     (case parsedCmdlineRelays e relayHosts relayLimit of
        Inl err \<Rightarrow> (Some err, [], ignoredRelays, fs)
      | Inr (overrideRelays, autoCount) \<Rightarrow>
          (case DirectRelayConnections_static e overrideRelays ignoredRelays [] of
             (ignored1, out1) \<Rightarrow>
               if autoCount = 0 then (None, out1, ignored1, fs)
               else
                 (case getRelays s e ex fs of
                    (Inl err, fs') \<Rightarrow> (Some (ErrRelayList err), out1, ignored1, fs')
                  | (Inr relays, fs') \<Rightarrow>
                      if length relays = 0 then (Some ErrNoRelays, out1, ignored1, fs')
                      else
                        (case manageAutoRelays s e autoCount relays ignored1 out1 of
                           (ignored2, out2) \<Rightarrow> (None, out2, ignored2, fs')))))"

text \<open>\<open>getAutoConnectedRelays\<close>: the callback of \<open>Range\<close>, run on every entry.\<close>

definition getAutoConnectedRelays :: "IgnoredRelaysMap \<Rightarrow> (string \<times> RelayInfo) list" where
  "getAutoConnectedRelays ignoredRelays =
     fold (\<lambda>(key, val) connectedAutoRelays.
             if IsConnected val \<and> \<not> IsStatic val
             then AList.update key val connectedAutoRelays
             else connectedAutoRelays)
          ignoredRelays []"

text \<open>
  \<open>findFastestAvailableRelays\<close> writes the probed latency into the map it is given and
  returns the other probes; the model returns the map as well.
\<close>

fun findFastestAvailableRelays_loop ::
  "nodeLatencyInfo list \<Rightarrow> (string \<times> RelayInfo) list \<Rightarrow> nodeLatencyInfo list
     \<Rightarrow> (string \<times> RelayInfo) list \<times> nodeLatencyInfo list" where
  "findFastestAvailableRelays_loop [] connectedAutoRelays fastestAvailableRelays =
     (connectedAutoRelays, fastestAvailableRelays)"
| "findFastestAvailableRelays_loop (pingLatency # rest) connectedAutoRelays fastestAvailableRelays =
     (case map_of connectedAutoRelays (nli_IP pingLatency) of
        Some info \<Rightarrow>
          findFastestAvailableRelays_loop rest
            (AList.update (nli_IP pingLatency) (info\<lparr>info_Latency := nli_Latency pingLatency\<rparr>)
               connectedAutoRelays)
            fastestAvailableRelays
      | None \<Rightarrow>
          findFastestAvailableRelays_loop rest connectedAutoRelays
            (fastestAvailableRelays @ [pingLatency]))"

definition findFastestAvailableRelays ::
  "nodeLatencyInfo list \<Rightarrow> (string \<times> RelayInfo) list
     \<Rightarrow> (string \<times> RelayInfo) list \<times> nodeLatencyInfo list" where
  "findFastestAvailableRelays pingLatencies connectedAutoRelays =
     findFastestAvailableRelays_loop pingLatencies connectedAutoRelays []"

text \<open>\<open>convertMapToSortedSlice\<close>: the entries of the map, sorted by descending latency.\<close>

definition convertMapToSortedSlice :: "(string \<times> RelayInfo) list \<Rightarrow> autoRelay list" where
  "convertMapToSortedSlice connectedAutoRelays =
     sort_Slice (\<lambda>a b. f64_lt (info_Latency (ar_relayInfo b)) (info_Latency (ar_relayInfo a)))
       (map (\<lambda>(k, v). \<lparr>ar_ip = k, ar_relayInfo = v\<rparr>) connectedAutoRelays)"

text \<open>\<open>relaysToSwitch[key]\<close>, the empty slice when the key is missing.\<close>

definition switch_lookup ::
  "(relayToSwitch \<times> nodeLatencyInfo list) list \<Rightarrow> relayToSwitch \<Rightarrow> nodeLatencyInfo list" where
  "switch_lookup relaysToSwitch key =
     (case map_of relaysToSwitch key of None \<Rightarrow> [] | Some xs \<Rightarrow> xs)"

text \<open>The inner loop of \<open>findRelaysToSwitch\<close>; \<open>continue OuterLoop\<close> leaves it.\<close>

fun findRelaysToSwitch_inner ::
  "autoRelay \<Rightarrow> nodeLatencyInfo list \<Rightarrow> (relayToSwitch \<times> nodeLatencyInfo list) list
     \<Rightarrow> (relayToSwitch \<times> nodeLatencyInfo list) list" where
  "findRelaysToSwitch_inner relay [] relaysToSwitch = relaysToSwitch"
| "findRelaysToSwitch_inner relay (pingLatency # rest) relaysToSwitch =
     (if f64_lt (info_Latency (ar_relayInfo relay))
                (f64_add (nli_Latency pingLatency) latencyThreshold)
      then relaysToSwitch
      else
        let key = \<lparr>rts_ip = ar_ip relay, rts_port = info_Port (ar_relayInfo relay)\<rparr> in
        findRelaysToSwitch_inner relay rest
          (AList.update key (switch_lookup relaysToSwitch key @ [pingLatency]) relaysToSwitch))"

fun findRelaysToSwitch_outer ::
  "autoRelay list \<Rightarrow> nodeLatencyInfo list \<Rightarrow> (relayToSwitch \<times> nodeLatencyInfo list) list
     \<Rightarrow> (relayToSwitch \<times> nodeLatencyInfo list) list" where
  "findRelaysToSwitch_outer [] fastestAvailableRelays relaysToSwitch = relaysToSwitch"
| "findRelaysToSwitch_outer (relay # rest) fastestAvailableRelays relaysToSwitch =
     findRelaysToSwitch_outer rest fastestAvailableRelays
       (findRelaysToSwitch_inner relay fastestAvailableRelays relaysToSwitch)"

definition findRelaysToSwitch ::
  "(string \<times> RelayInfo) list \<Rightarrow> nodeLatencyInfo list
     \<Rightarrow> (relayToSwitch \<times> nodeLatencyInfo list) list" where
  "findRelaysToSwitch connectedAutoRelays fastestAvailableRelays =
     findRelaysToSwitch_outer (convertMapToSortedSlice connectedAutoRelays)
       fastestAvailableRelays []"

text \<open>\<open>FindFastestRelays\<close> returns the instructions it sends and the disk.\<close>

definition FindFastestRelays ::
  "realSDNHTTP \<Rightarrow> env \<Rightarrow> exchange \<Rightarrow> filesystem \<Rightarrow> IgnoredRelaysMap
     \<Rightarrow> RelayInstruction list \<times> filesystem" where
  "FindFastestRelays s e ex fs ignoredRelays =
     (case getRelays s e ex fs of
        (Inl err, fs') \<Rightarrow> ([], fs')
      | (Inr relays, fs') \<Rightarrow>
          let pingLatencies = s_getPingLatencies s relays in
          if length pingLatencies = 0 then ([], fs')
          else
            let connectedAutoRelays = getAutoConnectedRelays ignoredRelays in
            case findFastestAvailableRelays pingLatencies connectedAutoRelays of
              (connectedAutoRelays', fastestAvailableRelays) \<Rightarrow>
                let relaysToSwitch =
                      findRelaysToSwitch connectedAutoRelays' fastestAvailableRelays
                in (map (\<lambda>(oldRelay, newRelays).
                           \<lparr>instr_IP = rts_ip oldRelay, instr_Type = Switch,
                            instr_Port = rts_port oldRelay, instr_IsStatic = False,
                            RelaysToSwitch = newRelays\<rparr>)
                        relaysToSwitch, fs'))"

section \<open>The directory session\<close>

definition zeroBlockchainNetwork :: BlockchainNetwork where
  "zeroBlockchainNetwork =
     \<lparr>NetworkNum = 0, Protocol = [], MinTxAgeSeconds = Finite 0 0,
      DefaultAttributes = \<lparr>TerminalTotalDifficulty = GoNil\<rparr>\<rparr>"

text \<open>
  \<open>FetchBlockchainNetwork\<close> returns its error, the receiver and the disk. The decoder
  writes into the entry of the map, so the entry holds what the decoder left behind also
  when it fails. The map \<open>s.networks\<close> is taken as allocated, as \<open>InitGateway\<close> and
  \<open>SetNetworks\<close> leave it.
\<close>

definition FetchBlockchainNetwork ::
  "realSDNHTTP \<Rightarrow> env \<Rightarrow> exchange \<Rightarrow> filesystem \<Rightarrow> error option \<times> realSDNHTTP \<times> filesystem" where
  "FetchBlockchainNetwork s e ex fs =
     (let networkNum = BlockchainNetworkNum (s_nodeModel s) in
      case httpWithCache (json_ErrorMessage e) (s_dataDir s) blockchainNetworkCacheFileName ex fs of
        (Inl err, fs') \<Rightarrow> (Some err, s, fs')
      | (Inr resp, fs') \<Rightarrow>
          let target = (case s_networks s networkNum of
                          None \<Rightarrow> zeroBlockchainNetwork
                        | Some prev \<Rightarrow> prev)
          in case json_BlockchainNetwork e resp target of
               (decoded, ok) \<Rightarrow>
                 if \<not> ok
                 then (Some (ErrDeserialize resp),
                       s\<lparr>s_networks := (s_networks s)(networkNum \<mapsto> decoded)\<rparr>, fs')
                 else
                   let network =
                         (if Protocol decoded = EthereumProtocol \<and>
                             TerminalTotalDifficulty (DefaultAttributes decoded) = GoInt 0
                          then decoded\<lparr>DefaultAttributes :=
                                 (DefaultAttributes decoded)
                                   \<lparr>TerminalTotalDifficulty := GoBigInt math_MaxInt\<rparr>\<rparr>
                          else decoded)
                   in (None, s\<lparr>s_networks := (s_networks s)(networkNum \<mapsto> network)\<rparr>, fs'))"

text \<open>\<open>getBlockchainNetworks\<close>; a \<open>null\<close> element of the decoded array is not modelled.\<close>

definition getBlockchainNetworks ::
  "realSDNHTTP \<Rightarrow> env \<Rightarrow> exchange \<Rightarrow> filesystem \<Rightarrow> error option \<times> realSDNHTTP \<times> filesystem" where
  "getBlockchainNetworks s e ex fs =
     (case httpWithCache (json_ErrorMessage e) (s_dataDir s) blockchainNetworksCacheFileName ex fs of
        (Inl err, fs') \<Rightarrow> (Some err, s, fs')
      | (Inr resp, fs') \<Rightarrow>
          (case json_BlockchainNetworks e resp of
             None \<Rightarrow> (Some (ErrDeserialize resp), s, fs')
           | Some nets \<Rightarrow>
               (None,
                s\<lparr>s_networks := fold (\<lambda>network m. m(NetworkNum network \<mapsto> network)) nets Map.empty\<rparr>,
                fs')))"

definition FetchAllBlockchainNetworks ::
  "realSDNHTTP \<Rightarrow> env \<Rightarrow> exchange \<Rightarrow> filesystem \<Rightarrow> error option \<times> realSDNHTTP \<times> filesystem" where
  "FetchAllBlockchainNetworks s e ex fs =
     (case getBlockchainNetworks s e ex fs of
        (Some err, s', fs') \<Rightarrow> (Some err, s', fs')
      | (None, s', fs') \<Rightarrow> (None, s', fs'))"

definition zeroAccount :: Account where
  "zeroAccount =
     \<lparr>TierName = [], SecretHash = [],
      RelayLimit = \<lparr>ExpireDate = [], MsgQuota = \<lparr>Limit = 0\<rparr>\<rparr>,
      MaxAllowedNodes = \<lparr>ExpireDate = [], MsgQuota = \<lparr>Limit = 0\<rparr>\<rparr>\<rparr>"

text \<open>\<open>fillInAccountDefaults\<close> returns the pair of an account and an error, as in Go.\<close>

definition fillInAccountDefaults :: "env \<Rightarrow> Account \<Rightarrow> nat \<Rightarrow> Account \<times> error option" where
  "fillInAccountDefaults e accountModel now =
     (let mappedAccountModel = GetDefaultEliteAccount e now in
      case copier_CopyWithOption e mappedAccountModel accountModel of
        (mappedAccountModel', ok) \<Rightarrow>
          if \<not> ok then (accountModel, Some ErrCopier)
          else (mappedAccountModel', None))"

text \<open>
  The two endpoints \<open>getAccountModelWithEndpoint\<close> is called with; it panics on any
  other string.
\<close>

datatype endpoint = Endpoint_accounts | Endpoint_account

definition getAccountModelWithEndpoint ::
  "realSDNHTTP \<Rightarrow> env \<Rightarrow> endpoint \<Rightarrow> exchange \<Rightarrow> filesystem
     \<Rightarrow> (Account \<times> error option) \<times> filesystem" where
  "getAccountModelWithEndpoint s e ep ex fs =
     (let accountModel = zeroAccount in
      case (case ep of
              Endpoint_accounts \<Rightarrow> (http (json_ErrorMessage e) ex, fs)
            | Endpoint_account \<Rightarrow>
                httpWithCache (json_ErrorMessage e) (s_dataDir s) accountModelsFileName ex fs) of
        (Inl err, fs') \<Rightarrow> ((accountModel, Some (ErrAccountModel err)), fs')
      | (Inr resp, fs') \<Rightarrow>
          (case json_Account e resp accountModel of
             (accountModel', ok) \<Rightarrow>
               if \<not> ok then ((accountModel', Some (ErrDeserialize resp)), fs')
               else (fillInAccountDefaults e accountModel' (time_Now e), fs')))"

definition getAccountModel ::
  "realSDNHTTP \<Rightarrow> env \<Rightarrow> exchange \<Rightarrow> filesystem \<Rightarrow> error option \<times> realSDNHTTP \<times> filesystem" where
  "getAccountModel s e ex fs =
     (case getAccountModelWithEndpoint s e Endpoint_account ex fs of
        ((accountModel, err), fs') \<Rightarrow>
          let a1 = (if Limit (MsgQuota (RelayLimit accountModel)) = 0
                    then accountModel\<lparr>RelayLimit :=
                           (RelayLimit accountModel)\<lparr>MsgQuota :=
                              (MsgQuota (RelayLimit accountModel))\<lparr>Limit := 1\<rparr>\<rparr>\<rparr>
                    else accountModel);
              a2 = (if Limit (MsgQuota (MaxAllowedNodes a1)) = 0
                    then a1\<lparr>MaxAllowedNodes :=
                           (MaxAllowedNodes a1)\<lparr>MsgQuota :=
                              (MsgQuota (MaxAllowedNodes a1))\<lparr>Limit := 6\<rparr>\<rparr>\<rparr>
                    else a1)
          in (err, s\<lparr>s_accountModel := Some a2\<rparr>, fs'))"

text \<open>
  Modelled from the spec: \<open>copier.CopyWithOption\<close> with \<open>IgnoreEmpty\<close> and \<open>DeepCopy\<close>
  is a deep merge in which the loaded value overrides the template field by field and
  an empty field of the loaded value leaves the template's field.
\<close>

definition mergeService :: "BDNService \<Rightarrow> BDNService \<Rightarrow> BDNService" where
  "mergeService to from = \<lparr>Limit = (if Limit from = 0 then Limit to else Limit from)\<rparr>"

definition mergeQuota :: "BDNQuotaService \<Rightarrow> BDNQuotaService \<Rightarrow> BDNQuotaService" where
  "mergeQuota to from =
     \<lparr>ExpireDate = (if ExpireDate from = [] then ExpireDate to else ExpireDate from),
      MsgQuota = mergeService (MsgQuota to) (MsgQuota from)\<rparr>"

definition deepMerge :: "Account \<Rightarrow> Account \<Rightarrow> Account \<times> bool" where
  "deepMerge to from =
     (\<lparr>TierName = (if TierName from = [] then TierName to else TierName from),
       SecretHash = (if SecretHash from = [] then SecretHash to else SecretHash from),
       RelayLimit = mergeQuota (RelayLimit to) (RelayLimit from),
       MaxAllowedNodes = mergeQuota (MaxAllowedNodes to) (MaxAllowedNodes from)\<rparr>, True)"

section \<open>A sample environment\<close>

text \<open>
  The environment of the worked examples: the dotted addresses used below parse as IP
  addresses, no host name resolves, the decoders accept nothing but a peer list, and
  the prober reports the latencies of scenario S5 of the specification.
\<close>

definition example_env :: env where
  "example_env =
     \<lparr>json_ErrorMessage = (\<lambda>_. None),
      json_Peers = (\<lambda>_. Some [\<lparr>peer_IP = ''4.4.4.4'', peer_Port = 1809\<rparr>]),
      json_BlockchainNetwork = (\<lambda>_ n. (n, False)),
      json_BlockchainNetworks = (\<lambda>_. None),
      json_Account = (\<lambda>_ a. (a, False)),
      GetDefaultEliteAccount = (\<lambda>_. zeroAccount),
      copier_CopyWithOption = deepMerge,
      net_ParseIP = (\<lambda>h. h \<in> set [''1.1.1.1'', ''2.2.2.2'', ''3.3.3.3'', ''4.4.4.4'', ''5.5.5.5'']),
      net_LookupHost = (\<lambda>_. None),
      net_LookupIP = (\<lambda>_. False),
      time_Now = 0\<rparr>"

definition example_sdn :: realSDNHTTP where
  "example_sdn =
     \<lparr>s_getPingLatencies = (\<lambda>_.
        [\<lparr>nli_IP = ''4.4.4.4'', nli_Port = 1809, nli_Latency = Finite 3 0\<rparr>,
         \<lparr>nli_IP = ''3.3.3.3'', nli_Port = 1809, nli_Latency = Finite 8 0\<rparr>,
         \<lparr>nli_IP = ''5.5.5.5'', nli_Port = 1809, nli_Latency = Finite 10 0\<rparr>,
         \<lparr>nli_IP = ''1.1.1.1'', nli_Port = 1809, nli_Latency = Finite 15 0\<rparr>,
         \<lparr>nli_IP = ''2.2.2.2'', nli_Port = 1809, nli_Latency = Finite 26 0\<rparr>]),
      s_networks = Map.empty,
      s_accountModel = None,
      s_dataDir = [],
      s_nodeModel = \<lparr>NodeID = [], AccountID = [], BlockchainNetworkNum = 5\<rparr>\<rparr>"

definition example_fs :: filesystem where
  "example_fs = \<lparr>files = Map.empty, denied = (\<lambda>_. False)\<rparr>"

text \<open>
  A directory that answers with one Ethereum network whose terminal total difficulty is
  the JSON number 0, and with an account whose limits are all 0 while the template grants two relays.
\<close>

definition example_network :: BlockchainNetwork where
  "example_network =
     \<lparr>NetworkNum = 5, Protocol = ''Ethereum'', MinTxAgeSeconds = Finite 0 0,
      DefaultAttributes = \<lparr>TerminalTotalDifficulty = GoFloat64 (Finite 0 0)\<rparr>\<rparr>"

definition example_directory :: env where
  "example_directory =
     example_env
       \<lparr>json_BlockchainNetwork := (\<lambda>_ _. (example_network, True)),
        json_BlockchainNetworks := (\<lambda>_. Some [example_network]),
        json_Account := (\<lambda>_ a. (a\<lparr>SecretHash := ''1234''\<rparr>, True)),
        GetDefaultEliteAccount := (\<lambda>_.
          zeroAccount\<lparr>RelayLimit := \<lparr>ExpireDate = [], MsgQuota = \<lparr>Limit = 2\<rparr>\<rparr>\<rparr>)\<rparr>"

text \<open>
  The ignored-relays map of scenario S5: three connected auto relays, and a connected
  static relay whose stored latency of 50 ms is far above that of every probe.
\<close>

definition example_ignored :: IgnoredRelaysMap where
  "example_ignored =
     [(''1.1.1.1'', \<lparr>TimeAdded = 0, IsConnected = True, IsStatic = False,
                     info_Port = 1809, info_Latency = Finite 0 0\<rparr>),
      (''2.2.2.2'', \<lparr>TimeAdded = 0, IsConnected = True, IsStatic = False,
                     info_Port = 1809, info_Latency = Finite 0 0\<rparr>),
      (''3.3.3.3'', \<lparr>TimeAdded = 0, IsConnected = True, IsStatic = False,
                     info_Port = 1809, info_Latency = Finite 0 0\<rparr>),
      (''9.9.9.9'', \<lparr>TimeAdded = 0, IsConnected = True, IsStatic = True,
                     info_Port = 1809, info_Latency = Finite 50 0\<rparr>)]"

text \<open>
  Two latencies as \<open>ping\<close> prints them, 6.016 ms and 16.016 ms, each as the nearest
  \<open>float64\<close>, and an ignored-relays map with the one connected auto relay that the
  second probe belongs to.
\<close>

definition latency_6_016 :: float64 where
  "latency_6_016 = Finite 6773413839565226 (- 50)"

definition latency_16_016 :: float64 where
  "latency_16_016 = Finite 4508103226997866 (- 48)"

definition rounding_sdn :: realSDNHTTP where
  "rounding_sdn =
     example_sdn\<lparr>s_getPingLatencies := (\<lambda>_.
        [\<lparr>nli_IP = ''4.4.4.4'', nli_Port = 1809, nli_Latency = latency_6_016\<rparr>,
         \<lparr>nli_IP = ''1.1.1.1'', nli_Port = 1809, nli_Latency = latency_16_016\<rparr>])\<rparr>"

definition rounding_ignored :: IgnoredRelaysMap where
  "rounding_ignored =
     [(''1.1.1.1'', \<lparr>TimeAdded = 0, IsConnected = True, IsStatic = False,
                     info_Port = 1809, info_Latency = Finite 0 0\<rparr>)]"

section \<open>Properties of the floating-point numbers and of sorting\<close>

lemma bitlen_numeral [simp]:
  "bitlen 0 = 0" "bitlen (Suc 0) = Suc 0" "bitlen 1 = 1"
  "bitlen (numeral k) = Suc (bitlen (numeral k div 2))"
  by (simp_all add: bitlen.simps [of 0] bitlen.simps [of "Suc 0"] bitlen.simps [of "numeral k"])

lemmas f64_eval = f64_add_def f64_sub_def f64_neg_def f64_lt_def f64_ge_def round_dyadic_def
  latencyThreshold_def Let_def

lemma insert_by_set: "set (insert_by lessf x xs) = insert x (set xs)"
  by (induction xs) auto

lemma sort_Slice_set: "set (sort_Slice lessf xs) = set xs"
  by (induction xs) (auto simp: sort_Slice_def insert_by_set)

lemma insert_by_distinct_map:
  "distinct (map g (insert_by lessf x xs)) \<longleftrightarrow> g x \<notin> g ` set xs \<and> distinct (map g xs)"
  by (induction xs) (auto simp: insert_by_set)

lemma sort_Slice_distinct_map:
  "distinct (map g (sort_Slice lessf xs)) \<longleftrightarrow> distinct (map g xs)"
proof (induction xs)
  case Nil
  show ?case by (simp add: sort_Slice_def)
next
  case (Cons x xs)
  have "sort_Slice lessf (x # xs) = insert_by lessf x (sort_Slice lessf xs)"
    by (simp add: sort_Slice_def)
  with Cons show ?case
    by (simp add: insert_by_distinct_map sort_Slice_set)
qed

lemma f64_value_powi: "f64_value (Finite m e) = of_int m * 2 powi e"
  by (cases "0 \<le> e") (auto simp: f64_value_def power_int_def field_simps)

lemma f64_align: "e \<le> e1 \<Longrightarrow> (of_int (m * 2 ^ nat (e1 - e)) :: real) * 2 powi e = of_int m * 2 powi e1"
proof -
  assume a: "e \<le> e1"
  have "(2::real) powi e1 = 2 powi (int (nat (e1 - e)) + e)" using a by simp
  also have "\<dots> = 2 ^ nat (e1 - e) * 2 powi e"
    using a by (subst power_int_add) (simp_all add: power_int_def)
  finally show ?thesis by simp
qed

lemma f64_lt_value:
  "f64_lt (Finite m1 e1) (Finite m2 e2) \<longleftrightarrow> f64_value (Finite m1 e1) < f64_value (Finite m2 e2)"
proof -
  let ?e = "min e1 e2"
  have p: "(0::real) < 2 powi ?e" by simp
  have "f64_lt (Finite m1 e1) (Finite m2 e2) \<longleftrightarrow>
          (of_int (m1 * 2 ^ nat (e1 - ?e)) :: real) < of_int (m2 * 2 ^ nat (e2 - ?e))"
    by (simp only: f64_lt_def Let_def float64.case of_int_less_iff)
  also have "\<dots> \<longleftrightarrow> (of_int (m1 * 2 ^ nat (e1 - ?e)) :: real) * 2 powi ?e
                          < of_int (m2 * 2 ^ nat (e2 - ?e)) * 2 powi ?e"
    using p by (simp only: mult_less_cancel_right_pos)
  also have "\<dots> \<longleftrightarrow> f64_value (Finite m1 e1) < f64_value (Finite m2 e2)"
    by (simp only: f64_align [of ?e e1 m1, OF min.cobounded1] f64_align [of ?e e2 m2, OF min.cobounded2]
          f64_value_powi)
  finally show ?thesis .
qed

lemma round_dyadic_exact:
  "M \<noteq> 0 \<Longrightarrow> int (bitlen (nat \<bar>M\<bar>)) \<le> 53 \<Longrightarrow> - 1074 \<le> E \<Longrightarrow>
   int (bitlen (nat \<bar>M\<bar>)) + E \<le> 1024 \<Longrightarrow> round_dyadic M E = Finite M E"
  by (simp add: round_dyadic_def Let_def)

section \<open>Properties of the cache-backed fetcher\<close>

lemma http_unavailable_iff:
  "http dec ex = Inl ErrSDNUnavailable \<longleftrightarrow> (\<exists>b. ex = Response 503 b)"
  by (auto simp: http_def split: exchange.splits body.splits option.splits)

lemma http_ok_iff:
  "http dec ex = Inr data \<longleftrightarrow> ex = Response 200 (Body data)"
  by (auto simp: http_def split: exchange.splits body.splits option.splits)

lemma LoadCacheFile_Inr_iff:
  "LoadCacheFile fs dataDir fileName = Inr c \<longleftrightarrow>
     \<not> denied fs (path_join dataDir fileName) \<and>
     files fs (path_join dataDir fileName) = Some c"
  by (auto simp: LoadCacheFile_def os_Open_def Let_def split: option.splits)

text \<open>
  C1. When the HTTP layer reports \<open>ErrSDNUnavailable\<close> (status 503) and the cache file
  \<open>dataDir/fileName\<close> can be read, \<open>httpWithCache\<close> returns exactly the bytes of that
  file and no error, and leaves the disk as it was; when the cache file cannot be read
  (it is missing, or the open is refused), the call returns an error.
\<close>

theorem httpWithCache_unavailable:
  assumes "http dec ex = Inl ErrSDNUnavailable"
  shows "(\<not> denied fs (path_join dataDir fileName) \<and>
          files fs (path_join dataDir fileName) = Some c
            \<longrightarrow> httpWithCache dec dataDir fileName ex fs = (Inr c, fs))
       \<and> (denied fs (path_join dataDir fileName) \<or>
          files fs (path_join dataDir fileName) = None
            \<longrightarrow> (\<exists>e. httpWithCache dec dataDir fileName ex fs = (Inl e, fs)))"
  using assms
  by (auto simp: httpWithCache_def LoadCacheFile_def os_Open_def Let_def
           split: option.splits)

theorem httpWithCache_unavailable_witness:
  "httpWithCache (\<lambda>_. None) ''data'' ''nodemodel.json'' (Response 503 (Body ''down''))
      \<lparr>files = [''data/nodemodel.json'' \<mapsto> ''{}''], denied = (\<lambda>_. False)\<rparr>
     = (Inr ''{}'', \<lparr>files = [''data/nodemodel.json'' \<mapsto> ''{}''], denied = (\<lambda>_. False)\<rparr>)
   \<and> (\<exists>e. httpWithCache (\<lambda>_. None) ''data'' ''nodemodel.json'' (Response 503 (Body ''down''))
            \<lparr>files = Map.empty, denied = (\<lambda>_. False)\<rparr>
          = (Inl e, \<lparr>files = Map.empty, denied = (\<lambda>_. False)\<rparr>))"
proof -
  have h: "http (\<lambda>_. None) (Response 503 (Body ''down'')) = Inl ErrSDNUnavailable"
    by (simp add: http_def)
  have p: "path_join ''data'' ''nodemodel.json'' = ''data/nodemodel.json''"
    by (simp add: path_join_def path_Clean_def)
  show ?thesis
    using httpWithCache_unavailable [OF h, of
            "\<lparr>files = [''data/nodemodel.json'' \<mapsto> ''{}''], denied = (\<lambda>_. False)\<rparr>"
            "''data''" "''nodemodel.json''" "''{}''"]
          httpWithCache_unavailable [OF h, of
            "\<lparr>files = Map.empty, denied = (\<lambda>_. False)\<rparr>"
            "''data''" "''nodemodel.json''" "''{}''"]
    by (simp add: p)
qed

lemma UpdateCacheFile_fresh:
  assumes "\<not> denied fs (path_join dataDir fileName)"
    and "case files fs (path_join dataDir fileName) of
           None \<Rightarrow> True | Some old \<Rightarrow> length old \<le> length val"
  shows "\<exists>fs'. UpdateCacheFile fs dataDir fileName val = (None, fs') \<and>
               files fs' (path_join dataDir fileName) = Some val"
  using assms
  by (auto simp: UpdateCacheFile_def os_OpenFile_CREATE_WRONLY_def write_at_start_def Let_def
           split: option.splits)

text \<open>
  C2. The claim asks that after a request answered with status 200 the bytes on disk at
  \<open>dataDir/fileName\<close> equal the returned bytes, in particular when the new body is
  shorter than the previous contents. \<open>UpdateCacheFile\<close> opens the file without
  \<open>O_TRUNC\<close>: with \<open>abcdef\<close> on disk and the body \<open>xy\<close>, the call returns \<open>xy\<close>
  and the file holds \<open>xycdef\<close>.
\<close>

theorem httpWithCache_stale_tail:
  "httpWithCache (\<lambda>_. None) [] ''nodemodel.json'' (Response 200 (Body ''xy''))
      \<lparr>files = [''nodemodel.json'' \<mapsto> ''abcdef''], denied = (\<lambda>_. False)\<rparr>
   = (Inr ''xy'', \<lparr>files = [''nodemodel.json'' \<mapsto> ''xycdef''], denied = (\<lambda>_. False)\<rparr>)"
  by (simp add: httpWithCache_def http_def UpdateCacheFile_def os_OpenFile_CREATE_WRONLY_def
        write_at_start_def path_join_def path_Clean_def)

section \<open>Properties of the relay specification parser\<close>

lemma strings_Split_nonempty: "strings_Split s sep \<noteq> []"
  by (induction s) (auto split: list.splits)

lemma strings_Split_append:
  "strings_Split (s @ sep # t) sep = strings_Split s sep @ strings_Split t sep"
  by (induction s) (auto split: list.splits simp: strings_Split_nonempty)

lemma strings_Split_length: "length (strings_Split s sep) = Suc (count_list s sep)"
  by (induction s) (auto split: list.splits simp: strings_Split_nonempty)

lemma loop_step:
  "parsedCmdlineRelays_loop e L (relay # rest) ov ac =
     (if (of_nat (length ov + ac) :: 64 word) = L then Inr (ov, ac)
      else case tokenRelay e relay of
             Inl err \<Rightarrow> Inl err
           | Inr None \<Rightarrow> parsedCmdlineRelays_loop e L rest ov (ac + 1)
           | Inr (Some (ip, port)) \<Rightarrow>
               parsedCmdlineRelays_loop e L rest
                 (if map_of ov ip = None then ov @ [(ip, port)] else ov) ac)"
  by (simp add: tokenRelay_def Let_def split: sum.splits option.splits)

declare parsedCmdlineRelays_loop.simps(2) [simp del]

lemma malformed_iff: "malformed e relay \<longleftrightarrow> (\<exists>err. tokenRelay e relay = Inl err)"
  by (auto simp: malformed_def tokenRelay_def Let_def strings_Split_length
           split: sum.splits option.splits if_splits)

lemma below_limit:
  "n \<le> unat (L :: 64 word) \<Longrightarrow> of_nat n \<noteq> L \<Longrightarrow> n < unat L"
  by (cases "n = unat L") auto

lemma not_at_limit:
  assumes "n < unat (L :: 64 word)"
  shows "(of_nat n :: 64 word) \<noteq> L"
proof
  assume "(of_nat n :: 64 word) = L"
  then have "unat L = unat (of_nat n :: 64 word)" by simp
  also have "\<dots> \<le> n" by (simp add: unat_of_nat)
  finally show False using assms by simp
qed

lemma loop_bound:
  "parsedCmdlineRelays_loop e L ts ov ac = Inr (ov', ac') \<Longrightarrow>
   length ov + ac \<le> unat L \<Longrightarrow> length ov' + ac' \<le> unat L"
proof (induction ts arbitrary: ov ac)
  case Nil
  then show ?case by simp
next
  case (Cons relay rest)
  show ?case
  proof (cases "(of_nat (length ov + ac) :: 64 word) = L")
    case True
    with Cons.prems show ?thesis by (simp add: loop_step)
  next
    case False
    with Cons.prems(2) have lt: "length ov + ac < unat L" by (simp add: below_limit)
    from Cons.prems(1) False lt Cons.IH show ?thesis
      by (auto simp: loop_step split: sum.splits option.splits if_splits)
  qed
qed

lemma loop_distinct:
  "parsedCmdlineRelays_loop e L ts ov ac = Inr (ov', ac') \<Longrightarrow>
   distinct (map fst ov) \<Longrightarrow> distinct (map fst ov')"
proof (induction ts arbitrary: ov ac)
  case Nil
  then show ?case by simp
next
  case (Cons relay rest)
  from Cons.prems Cons.IH show ?case
    by (auto simp: loop_step map_of_eq_None_iff split: sum.splits option.splits if_splits)
qed

lemma loop_halts:
  "length ov + ac = unat L \<Longrightarrow> parsedCmdlineRelays_loop e L rest ov ac = Inr (ov, ac)"
  by (cases rest) (simp_all add: loop_step)

lemma loop_append_done:
  "parsedCmdlineRelays_loop e L ts ov ac = Inr (ov', ac') \<Longrightarrow>
   length ov' + ac' = unat L \<Longrightarrow>
   parsedCmdlineRelays_loop e L (ts @ us) ov ac = Inr (ov', ac')"
proof (induction ts arbitrary: ov ac)
  case Nil
  then show ?case by (simp add: loop_halts)
next
  case (Cons relay rest)
  from Cons.prems Cons.IH show ?case
    by (auto simp: loop_step split: sum.splits option.splits if_splits)
qed

lemma loop_append_cont:
  "parsedCmdlineRelays_loop e L pre ov0 ac0 = Inr (ov, ac) \<Longrightarrow>
   length ov + ac < unat L \<Longrightarrow>
   parsedCmdlineRelays_loop e L (pre @ us) ov0 ac0 = parsedCmdlineRelays_loop e L us ov ac"
proof (induction pre arbitrary: ov0 ac0)
  case Nil
  then show ?case by simp
next
  case (Cons relay rest)
  have ne: "(of_nat (length ov + ac) :: 64 word) \<noteq> L"
    using Cons.prems(2) by (rule not_at_limit)
  show ?case
  proof (cases "(of_nat (length ov0 + ac0) :: 64 word) = L")
    case True
    with Cons.prems(1) have "ov = ov0" "ac = ac0" by (simp_all add: loop_step)
    with True ne show ?thesis by simp
  next
    case False
    with Cons.prems Cons.IH show ?thesis
      by (auto simp: loop_step split: sum.splits option.splits if_splits)
  qed
qed



lemmas parse_eval =
  parsedCmdlineRelays_def loop_step tokenRelay_def strings_Trim_def example_env_def
  strconv_Atoi_def is_digit_def digits_value_def GetIP_def Let_def

lemma parse_two_autos:
  "parsedCmdlineRelays example_env ''auto, auto, 1.1.1.1'' 2 = Inr ([], 2)"
  by (simp add: parse_eval)


lemma parse_one_relay:
  "parsedCmdlineRelays example_env ''1.1.1.1'' 1 = Inr ([(''1.1.1.1'', 1809)], 0)"
  by (simp add: parse_eval)

lemma parse_junk_alone:
  "parsedCmdlineRelays example_env ''x:y:z,,2.2.2.2:abc'' 1 = Inl (ErrRelayFormat ''x:y:z'')"
  by (simp add: parse_eval)

text \<open>
  C5. When \<open>parsedCmdlineRelays\<close> succeeds, the override relays have distinct IPs and
  their number plus the number of \<open>auto\<close> tokens counted is at most the limit; and from
  a state in which that sum equals the limit the loop returns at once, whatever pieces
  are left.
\<close>

theorem parsedCmdlineRelays_within_limit:
  "(parsedCmdlineRelays e relayHosts relayLimit = Inr (overrideRelays, autoCount) \<longrightarrow>
      distinct (map fst overrideRelays) \<and> length overrideRelays + autoCount \<le> unat relayLimit)
   \<and> (length ov + ac = unat relayLimit \<longrightarrow>
        parsedCmdlineRelays_loop e relayLimit rest ov ac = Inr (ov, ac))"
proof (intro conjI impI)
  assume ok: "parsedCmdlineRelays e relayHosts relayLimit = Inr (overrideRelays, autoCount)"
  then have l: "parsedCmdlineRelays_loop e relayLimit (strings_Split relayHosts (CHR '','')) [] 0
                  = Inr (overrideRelays, autoCount)"
    by (simp add: parsedCmdlineRelays_def split: if_splits)
  from loop_distinct [OF l] show "distinct (map fst overrideRelays)" by simp
  from loop_bound [OF l] show "length overrideRelays + autoCount \<le> unat relayLimit" by simp
next
  assume "length ov + ac = unat relayLimit"
  then show "parsedCmdlineRelays_loop e relayLimit rest ov ac = Inr (ov, ac)"
    by (rule loop_halts)
qed

theorem parsedCmdlineRelays_within_limit_witness:
  "parsedCmdlineRelays example_env ''auto, auto, 1.1.1.1'' 2 = Inr ([], 2)
   \<and> length ([] :: relayMap) + 2 \<le> unat (2 :: 64 word)
   \<and> parsedCmdlineRelays_loop example_env 2 ['' 1.1.1.1''] [] 2 = Inr ([], 2)"
  using parsedCmdlineRelays_within_limit
          [where e = example_env and relayHosts = "''auto, auto, 1.1.1.1''" and relayLimit = 2
             and overrideRelays = "[]" and autoCount = 2 and ov = "[]" and ac = 2
             and rest = "['' 1.1.1.1'']"]
        parse_two_autos
  by simp

text \<open>
  C10. Once the parse of a specification has succeeded with the count of override
  relays plus \<open>auto\<close> tokens equal to the limit, whatever follows after a further comma
  is not looked at: the parse of the longer specification succeeds with the same
  result, also when the pieces that follow are malformed.
\<close>

theorem parsedCmdlineRelays_ignores_rest:
  assumes "parsedCmdlineRelays e relayHosts relayLimit = Inr (overrideRelays, autoCount)"
    and "length overrideRelays + autoCount = unat relayLimit"
  shows "parsedCmdlineRelays e (relayHosts @ '','' @ junk) relayLimit
           = Inr (overrideRelays, autoCount)"
proof -
  from assms(1) have l:
    "parsedCmdlineRelays_loop e relayLimit (strings_Split relayHosts (CHR '','')) [] 0
       = Inr (overrideRelays, autoCount)"
    by (simp add: parsedCmdlineRelays_def split: if_splits)
  have "strings_Split (relayHosts @ '','' @ junk) (CHR '','')
          = strings_Split relayHosts (CHR '','') @ strings_Split junk (CHR '','')"
    using strings_Split_append [of relayHosts "CHR '',''" junk] by simp
  with loop_append_done [OF l assms(2)] show ?thesis
    by (simp add: parsedCmdlineRelays_def)
qed

theorem parsedCmdlineRelays_ignores_rest_witness:
  "parsedCmdlineRelays example_env ''x:y:z,,2.2.2.2:abc'' 1 = Inl (ErrRelayFormat ''x:y:z'')
   \<and> parsedCmdlineRelays example_env ''1.1.1.1,x:y:z,,2.2.2.2:abc'' 1
       = Inr ([(''1.1.1.1'', 1809)], 0)"
proof -
  have "length [(''1.1.1.1'', 1809 :: int)] + 0 = unat (1 :: 64 word)" by simp
  from parsedCmdlineRelays_ignores_rest [OF parse_one_relay this, of "''x:y:z,,2.2.2.2:abc''"]
  show ?thesis using parse_junk_alone by simp
qed



section \<open>Properties of the bootstrap\<close>

lemma DirectRelayConnections_parse_error:
  "parsedCmdlineRelays e relayHosts relayLimit = Inl err \<Longrightarrow>
   DirectRelayConnections s e relayHosts relayLimit ex fs ignoredRelays
     = (Some err, [], ignoredRelays, fs)"
  by (simp add: DirectRelayConnections_def)

text \<open>
  C6, as the claim states it, fails: the specification \<open>1.1.1.1,,\<close> holds two empty
  tokens, and with the limit 1 the parse stops after the first piece, so
  \<open>DirectRelayConnections\<close> returns no error, stores the relay and sends a \<open>Connect\<close>.
\<close>

theorem DirectRelayConnections_empty_token_after_limit:
  "DirectRelayConnections example_sdn example_env ''1.1.1.1,,'' 1 TransportError example_fs []
     = (None,
        [\<lparr>instr_IP = ''1.1.1.1'', instr_Type = Connect, instr_Port = 1809,
          instr_IsStatic = True, RelaysToSwitch = []\<rparr>],
        [(''1.1.1.1'', \<lparr>TimeAdded = 0, IsConnected = True, IsStatic = True,
                        info_Port = 1809, info_Latency = Finite 0 0\<rparr>)],
        example_fs)"
proof -
  have "parsedCmdlineRelays example_env ''1.1.1.1,,'' 1 = Inr ([(''1.1.1.1'', 1809)], 0)"
    by (simp add: parse_eval)
  then show ?thesis
    by (simp add: DirectRelayConnections_def Store_def example_env_def)
qed

text \<open>
  C6, amended. For the empty input string, and for every specification in which a
  malformed piece (empty, more than one colon, a port that is not an integer, a host
  that does not resolve) comes while the pieces before it parse and leave the count of
  override relays plus \<open>auto\<close> tokens below the limit, \<open>DirectRelayConnections\<close>
  returns an error, sends no instruction and leaves the ignored-relays map and the disk
  as they were.
\<close>

theorem DirectRelayConnections_config_error:
  "(relayHosts = [] \<longrightarrow>
      DirectRelayConnections s e relayHosts relayLimit ex fs ignoredRelays
        = (Some ErrNoRelayArgs, [], ignoredRelays, fs))
   \<and> (relayHosts \<noteq> [] \<and> strings_Split relayHosts (CHR '','') = pre @ bad # post \<and>
      parsedCmdlineRelays_loop e relayLimit pre [] 0 = Inr (ov, ac) \<and>
      length ov + ac < unat relayLimit \<and> malformed e bad \<longrightarrow>
      (\<exists>err. DirectRelayConnections s e relayHosts relayLimit ex fs ignoredRelays
               = (Some err, [], ignoredRelays, fs)))"
proof (intro conjI impI)
  assume "relayHosts = []"
  then show "DirectRelayConnections s e relayHosts relayLimit ex fs ignoredRelays
               = (Some ErrNoRelayArgs, [], ignoredRelays, fs)"
    by (simp add: DirectRelayConnections_def parsedCmdlineRelays_def)
next
  assume a: "relayHosts \<noteq> [] \<and> strings_Split relayHosts (CHR '','') = pre @ bad # post \<and>
      parsedCmdlineRelays_loop e relayLimit pre [] 0 = Inr (ov, ac) \<and>
      length ov + ac < unat relayLimit \<and> malformed e bad"
  then obtain err where err: "tokenRelay e bad = Inl err"
    by (auto simp: malformed_iff)
  from a have lt: "length ov + ac < unat relayLimit" by simp
  from a have pre: "parsedCmdlineRelays_loop e relayLimit pre [] 0 = Inr (ov, ac)" by simp
  have "parsedCmdlineRelays_loop e relayLimit (pre @ bad # post) [] 0
          = parsedCmdlineRelays_loop e relayLimit (bad # post) ov ac"
    by (rule loop_append_cont [OF pre lt])
  also have "\<dots> = Inl err"
    using not_at_limit [OF lt] err by (simp add: loop_step)
  finally have "parsedCmdlineRelays e relayHosts relayLimit = Inl err"
    using a by (simp add: parsedCmdlineRelays_def)
  then have "DirectRelayConnections s e relayHosts relayLimit ex fs ignoredRelays
               = (Some err, [], ignoredRelays, fs)"
    by (rule DirectRelayConnections_parse_error)
  then show "\<exists>err. DirectRelayConnections s e relayHosts relayLimit ex fs ignoredRelays
               = (Some err, [], ignoredRelays, fs)" ..
qed

theorem DirectRelayConnections_config_error_witness:
  "DirectRelayConnections example_sdn example_env [] 2 TransportError example_fs []
     = (Some ErrNoRelayArgs, [], [], example_fs)
   \<and> malformed example_env '' 2.2.2.2:abc''
   \<and> (\<exists>err. DirectRelayConnections example_sdn example_env ''1.1.1.1, 2.2.2.2:abc'' 2
               TransportError example_fs []
             = (Some err, [], [], example_fs))"
proof -
  have m: "malformed example_env '' 2.2.2.2:abc''"
    by (simp add: malformed_def parse_eval)
  have l: "parsedCmdlineRelays_loop example_env 2 [''1.1.1.1''] [] 0
             = Inr ([(''1.1.1.1'', 1809)], 0)"
    by (simp add: parse_eval)
  have sp: "strings_Split ''1.1.1.1, 2.2.2.2:abc'' (CHR '','')
              = [''1.1.1.1''] @ '' 2.2.2.2:abc'' # []"
    by simp
  show ?thesis
    using DirectRelayConnections_config_error
            [where relayHosts = "[]" and s = example_sdn and e = example_env
               and relayLimit = 2 and ex = TransportError and fs = example_fs
               and ignoredRelays = "[]"]
          DirectRelayConnections_config_error
            [where relayHosts = "''1.1.1.1, 2.2.2.2:abc''" and s = example_sdn
               and e = example_env and relayLimit = 2 and ex = TransportError
               and fs = example_fs and ignoredRelays = "[]" and pre = "[''1.1.1.1'']"
               and bad = "'' 2.2.2.2:abc''" and post = "[]"
               and ov = "[(''1.1.1.1'', 1809)]" and ac = 0]
          m l sp
    by simp
qed

section \<open>Properties of the directory session\<close>

lemma FetchBlockchainNetwork_stored:
  assumes "httpWithCache (json_ErrorMessage e) (s_dataDir s) blockchainNetworkCacheFileName ex fs
             = (Inr resp, fs')"
    and "json_BlockchainNetwork e resp
           (case s_networks s (BlockchainNetworkNum (s_nodeModel s)) of
              None \<Rightarrow> zeroBlockchainNetwork | Some prev \<Rightarrow> prev) = (decoded, True)"
  shows "FetchBlockchainNetwork s e ex fs =
           (None,
            s\<lparr>s_networks := (s_networks s)(BlockchainNetworkNum (s_nodeModel s) \<mapsto>
               (if Protocol decoded = EthereumProtocol \<and>
                   TerminalTotalDifficulty (DefaultAttributes decoded) = GoInt 0
                then decoded\<lparr>DefaultAttributes :=
                       (DefaultAttributes decoded)
                         \<lparr>TerminalTotalDifficulty := GoBigInt math_MaxInt\<rparr>\<rparr>
                else decoded))\<rparr>,
            fs')"
  using assms by (simp add: FetchBlockchainNetwork_def Let_def)

lemma FetchBlockchainNetwork_keeps_decoded_number:
  assumes "httpWithCache (json_ErrorMessage e) (s_dataDir s) blockchainNetworkCacheFileName ex fs
             = (Inr resp, fs')"
    and "json_BlockchainNetwork e resp
           (case s_networks s (BlockchainNetworkNum (s_nodeModel s)) of
              None \<Rightarrow> zeroBlockchainNetwork | Some prev \<Rightarrow> prev) = (decoded, True)"
    and "json_decoded (TerminalTotalDifficulty (DefaultAttributes decoded))"
  shows "FetchBlockchainNetwork s e ex fs =
           (None,
            s\<lparr>s_networks := (s_networks s)(BlockchainNetworkNum (s_nodeModel s) \<mapsto> decoded)\<rparr>,
            fs')"
proof -
  from assms(3) have "TerminalTotalDifficulty (DefaultAttributes decoded) \<noteq> GoInt 0"
    by (auto simp: json_decoded_def)
  with FetchBlockchainNetwork_stored [OF assms(1,2)] show ?thesis by simp
qed

text \<open>
  C8. The claim asks that an Ethereum network loaded by \<open>FetchBlockchainNetwork\<close> or
  by \<open>FetchAllBlockchainNetworks\<close> with a terminal total difficulty of 0 is stored
  with the maximum signed 64-bit integer. \<open>getBlockchainNetworks\<close> stores the decoded
  networks as they are: the directory answers with an Ethereum network of difficulty 0,
  and the map holds it with difficulty 0. \<open>FetchBlockchainNetwork\<close> holds the
  replacement, but its test \<open>== 0\<close> on the interface value is true of an \<open>int\<close> 0
  only, which the decoder never stores (the lemmas above and the one below).
\<close>

theorem FetchAllBlockchainNetworks_keeps_zero:
  "FetchAllBlockchainNetworks example_sdn example_directory (Response 200 (Body ''[]'')) example_fs
     = (None,
        example_sdn\<lparr>s_networks := [5 \<mapsto> example_network]\<rparr>,
        \<lparr>files = [''blockchainNetworks.json'' \<mapsto> ''[]''], denied = (\<lambda>_. False)\<rparr>)"
  by (simp add: FetchAllBlockchainNetworks_def getBlockchainNetworks_def httpWithCache_def
        http_def UpdateCacheFile_def os_OpenFile_CREATE_WRONLY_def write_at_start_def
        path_join_def path_Clean_def example_sdn_def example_directory_def example_env_def example_fs_def
        example_network_def blockchainNetworksCacheFileName_def)

lemma FetchBlockchainNetwork_example:
  "FetchBlockchainNetwork example_sdn example_directory (Response 200 (Body ''{}'')) example_fs
     = (None,
        example_sdn\<lparr>s_networks := [5 \<mapsto> example_network]\<rparr>,
        \<lparr>files = [''blockchainNetwork.json'' \<mapsto> ''{}''], denied = (\<lambda>_. False)\<rparr>)"
  by (simp add: FetchBlockchainNetwork_def httpWithCache_def
        http_def UpdateCacheFile_def os_OpenFile_CREATE_WRONLY_def write_at_start_def
        path_join_def path_Clean_def example_sdn_def example_directory_def example_env_def
        example_fs_def example_network_def blockchainNetworkCacheFileName_def
        EthereumProtocol_def Let_def)

text \<open>
  C9. After \<open>getAccountModel\<close> the receiver holds an account whose relay limit and
  whose limit of allowed nodes are at least 1: a limit that \<open>getAccountModelWithEndpoint\<close>
  hands back as 0 (after the merge with the default elite account, when the load got
  that far) is stored as 1 for the relays and as 6 for the nodes, and any other limit
  is stored as it is.
\<close>

theorem getAccountModel_limits:
  "\<exists>a. s_accountModel (fst (snd (getAccountModel s e ex fs))) = Some a \<and>
        Limit (MsgQuota (RelayLimit a)) =
          (let l = Limit (MsgQuota (RelayLimit
                     (fst (fst (getAccountModelWithEndpoint s e Endpoint_account ex fs)))))
           in if l = 0 then 1 else l) \<and>
        Limit (MsgQuota (MaxAllowedNodes a)) =
          (let l = Limit (MsgQuota (MaxAllowedNodes
                     (fst (fst (getAccountModelWithEndpoint s e Endpoint_account ex fs)))))
           in if l = 0 then 6 else l) \<and>
        1 \<le> unat (Limit (MsgQuota (RelayLimit a))) \<and>
        1 \<le> unat (Limit (MsgQuota (MaxAllowedNodes a)))"
proof -
  obtain loaded err fs' where
    g: "getAccountModelWithEndpoint s e Endpoint_account ex fs = ((loaded, err), fs')"
    by (metis surj_pair)
  have pos: "\<And>w :: 64 word. w \<noteq> 0 \<Longrightarrow> Suc 0 \<le> unat w"
    by (simp add: Suc_leI unat_gt_0)
  show ?thesis
    using g by (auto simp: getAccountModel_def Let_def pos)
qed

lemma getAccountModelWithEndpoint_merged:
  assumes "httpWithCache (json_ErrorMessage e) (s_dataDir s) accountModelsFileName ex fs
             = (Inr resp, fs')"
    and "json_Account e resp zeroAccount = (decoded, True)"
    and "copier_CopyWithOption e (GetDefaultEliteAccount e (time_Now e)) decoded = (merged, True)"
  shows "getAccountModelWithEndpoint s e Endpoint_account ex fs = ((merged, None), fs')"
  using assms by (simp add: getAccountModelWithEndpoint_def fillInAccountDefaults_def Let_def)

lemma example_account:
  "getAccountModelWithEndpoint example_sdn example_directory Endpoint_account
     (Response 200 (Body ''{}'')) example_fs
   = ((\<lparr>TierName = [], SecretHash = ''1234'',
        RelayLimit = \<lparr>ExpireDate = [], MsgQuota = \<lparr>Limit = 2\<rparr>\<rparr>,
        MaxAllowedNodes = \<lparr>ExpireDate = [], MsgQuota = \<lparr>Limit = 0\<rparr>\<rparr>\<rparr>, None),
      \<lparr>files = [''accountmodel.json'' \<mapsto> ''{}''], denied = (\<lambda>_. False)\<rparr>)"
  by (simp add: getAccountModelWithEndpoint_def fillInAccountDefaults_def httpWithCache_def
        http_def UpdateCacheFile_def os_OpenFile_CREATE_WRONLY_def write_at_start_def
        path_join_def path_Clean_def example_sdn_def example_directory_def example_env_def example_fs_def
        accountModelsFileName_def zeroAccount_def deepMerge_def mergeQuota_def
        mergeService_def Let_def)

theorem getAccountModel_limits_witness:
  "\<exists>a. s_accountModel (fst (snd (getAccountModel example_sdn example_directory
            (Response 200 (Body ''{}'')) example_fs))) = Some a \<and>
        Limit (MsgQuota (RelayLimit a)) = 2 \<and>
        Limit (MsgQuota (MaxAllowedNodes a)) = 6"
  using getAccountModel_limits [of example_sdn example_directory "Response 200 (Body ''{}'')"
          example_fs]
  by (auto simp: example_account)

section \<open>Properties of the periodic re-evaluation\<close>

lemma getAuto_fold_Some:
  "map_of (fold (\<lambda>(key, val) c. if IsConnected val \<and> \<not> IsStatic val
                                   then AList.update key val c else c) xs acc) k = Some v \<Longrightarrow>
   map_of acc k = Some v \<or> ((k, v) \<in> set xs \<and> IsConnected v \<and> \<not> IsStatic v)"
proof (induction xs arbitrary: acc)
  case Nil
  then show ?case by simp
next
  case (Cons x xs)
  obtain k' v' where x: "x = (k', v')" by (cases x)
  from Cons.IH [OF Cons.prems [unfolded x, simplified]] show ?case
    by (auto simp: x update_conv' split: if_splits)
qed

lemma getAuto_fold_distinct:
  "distinct (map fst acc) \<Longrightarrow>
   distinct (map fst (fold (\<lambda>(key, val) c. if IsConnected val \<and> \<not> IsStatic val
                                   then AList.update key val c else c) xs acc))"
  by (induction xs arbitrary: acc) (auto simp: distinct_update)

lemma getAutoConnectedRelays_Some:
  "map_of (getAutoConnectedRelays ign) k = Some v \<Longrightarrow>
   (k, v) \<in> set ign \<and> IsConnected v \<and> \<not> IsStatic v"
  using getAuto_fold_Some [of ign "[]" k v] by (simp add: getAutoConnectedRelays_def)

lemma getAutoConnectedRelays_distinct: "distinct (map fst (getAutoConnectedRelays ign))"
  using getAuto_fold_distinct [of "[]" ign] by (simp add: getAutoConnectedRelays_def)

lemma ffa_None:
  "findFastestAvailableRelays_loop ps conn acc = (conn', fastest) \<Longrightarrow>
   (map_of conn' k = None) = (map_of conn k = None)"
proof (induction ps arbitrary: conn acc)
  case Nil
  then show ?case by simp
next
  case (Cons p ps)
  show ?case
  proof (cases "map_of conn (nli_IP p)")
    case None
    with Cons.prems Cons.IH show ?thesis by simp
  next
    case (Some info)
    with Cons.prems have
      "findFastestAvailableRelays_loop ps
         (AList.update (nli_IP p) (info\<lparr>info_Latency := nli_Latency p\<rparr>) conn) acc
       = (conn', fastest)" by simp
    from Cons.IH [OF this] Some show ?thesis by (auto simp: update_conv')
  qed
qed

lemma ffa_fastest:
  "findFastestAvailableRelays_loop ps conn acc = (conn', fastest) \<Longrightarrow>
   fastest = acc @ filter (\<lambda>p. map_of conn (nli_IP p) = None) ps"
proof (induction ps arbitrary: conn acc)
  case Nil
  then show ?case by simp
next
  case (Cons p ps)
  show ?case
  proof (cases "map_of conn (nli_IP p)")
    case None
    with Cons.prems have
      "findFastestAvailableRelays_loop ps conn (acc @ [p]) = (conn', fastest)" by simp
    from Cons.IH [OF this] None show ?thesis by simp
  next
    case (Some info)
    with Cons.prems have
      "findFastestAvailableRelays_loop ps
         (AList.update (nli_IP p) (info\<lparr>info_Latency := nli_Latency p\<rparr>) conn) acc
       = (conn', fastest)" by simp
    from Cons.IH [OF this] have
      f: "fastest = acc @ filter (\<lambda>x. map_of (AList.update (nli_IP p)
             (info\<lparr>info_Latency := nli_Latency p\<rparr>) conn) (nli_IP x) = None) ps" .
    have "filter (\<lambda>x. map_of (AList.update (nli_IP p)
             (info\<lparr>info_Latency := nli_Latency p\<rparr>) conn) (nli_IP x) = None) ps
          = filter (\<lambda>x. map_of conn (nli_IP x) = None) ps"
      using Some by (intro filter_cong refl) (auto simp: update_conv')
    with f Some show ?thesis by simp
  qed
qed

lemma ffa_distinct:
  "findFastestAvailableRelays_loop ps conn acc = (conn', fastest) \<Longrightarrow>
   distinct (map fst conn) \<Longrightarrow> distinct (map fst conn')"
proof (induction ps arbitrary: conn acc)
  case Nil
  then show ?case by simp
next
  case (Cons p ps)
  from Cons.prems Cons.IH show ?case
    by (auto simp: distinct_update split: option.splits)
qed

lemma ffa_fields:
  "findFastestAvailableRelays_loop ps conn acc = (conn', fastest) \<Longrightarrow>
   map_of conn' k = Some v' \<Longrightarrow>
   \<exists>v. map_of conn k = Some v \<and> IsStatic v' = IsStatic v \<and>
       IsConnected v' = IsConnected v \<and> info_Port v' = info_Port v"
proof (induction ps arbitrary: conn acc)
  case Nil
  then show ?case by simp
next
  case (Cons p ps)
  show ?case
  proof (cases "map_of conn (nli_IP p)")
    case None
    with Cons.prems Cons.IH show ?thesis by simp
  next
    case (Some info)
    with Cons.prems have
      "findFastestAvailableRelays_loop ps
         (AList.update (nli_IP p) (info\<lparr>info_Latency := nli_Latency p\<rparr>) conn) acc
       = (conn', fastest)" by simp
    from Cons.IH [OF this Cons.prems(2)] Some show ?thesis
      by (auto simp: update_conv' split: if_splits)
  qed
qed

lemma inner_map_of:
  "map_of (findRelaysToSwitch_inner r ps m) =
     (if takeWhile (\<lambda>p. \<not> f64_lt (info_Latency (ar_relayInfo r)) (f64_add (nli_Latency p) latencyThreshold)) ps = []
      then map_of m
      else (map_of m)
             (\<lparr>rts_ip = ar_ip r, rts_port = info_Port (ar_relayInfo r)\<rparr> \<mapsto>
                switch_lookup m \<lparr>rts_ip = ar_ip r, rts_port = info_Port (ar_relayInfo r)\<rparr> @
                takeWhile (\<lambda>p. \<not> f64_lt (info_Latency (ar_relayInfo r)) (f64_add (nli_Latency p) latencyThreshold)) ps))"
proof (induction ps arbitrary: m)
  case Nil
  then show ?case by simp
next
  case (Cons p ps)
  show ?case
    by (auto simp add: Cons.IH Let_def update_conv' switch_lookup_def fun_eq_iff)
qed

lemma outer_char:
  "distinct (map ar_ip rs) \<Longrightarrow>
   \<forall>r \<in> set rs. map_of m \<lparr>rts_ip = ar_ip r, rts_port = info_Port (ar_relayInfo r)\<rparr> = None \<Longrightarrow>
   map_of (findRelaysToSwitch_outer rs fastest m) k = Some cs \<Longrightarrow>
   map_of m k = Some cs \<or>
   (\<exists>r \<in> set rs. k = \<lparr>rts_ip = ar_ip r, rts_port = info_Port (ar_relayInfo r)\<rparr> \<and> cs \<noteq> [] \<and>
      cs = takeWhile (\<lambda>p. \<not> f64_lt (info_Latency (ar_relayInfo r)) (f64_add (nli_Latency p) latencyThreshold))
             fastest)"
proof (induction rs arbitrary: m)
  case Nil
  then show ?case by simp
next
  case (Cons r rs)
  let ?m1 = "findRelaysToSwitch_inner r fastest m"
  have fresh: "\<forall>r' \<in> set rs.
      map_of ?m1 \<lparr>rts_ip = ar_ip r', rts_port = info_Port (ar_relayInfo r')\<rparr> = None"
    using Cons.prems(1,2) by (auto simp: inner_map_of) (metis imageI)
  from Cons.prems(1) have d: "distinct (map ar_ip rs)" by simp
  from Cons.prems(3) have
    "map_of (findRelaysToSwitch_outer rs fastest ?m1) k = Some cs" by simp
  from Cons.IH [OF d fresh this] show ?case
  proof
    assume "map_of ?m1 k = Some cs"
    with Cons.prems(2) show ?thesis
      by (auto simp: inner_map_of switch_lookup_def split: if_splits)
  next
    assume "\<exists>r \<in> set rs. k = \<lparr>rts_ip = ar_ip r, rts_port = info_Port (ar_relayInfo r)\<rparr> \<and>
      cs \<noteq> [] \<and>
      cs = takeWhile (\<lambda>p. \<not> f64_lt (info_Latency (ar_relayInfo r)) (f64_add (nli_Latency p) latencyThreshold))
             fastest"
    then show ?thesis by auto
  qed
qed

lemma inner_distinct:
  "distinct (map fst m) \<Longrightarrow> distinct (map fst (findRelaysToSwitch_inner r ps m))"
  by (induction ps arbitrary: m) (auto simp: distinct_update Let_def)

lemma outer_distinct:
  "distinct (map fst m) \<Longrightarrow> distinct (map fst (findRelaysToSwitch_outer rs fastest m))"
  by (induction rs arbitrary: m) (auto simp: inner_distinct)

lemma convert_set:
  "set (convertMapToSortedSlice conn) = (\<lambda>(k, v). \<lparr>ar_ip = k, ar_relayInfo = v\<rparr>) ` set conn"
  by (simp add: convertMapToSortedSlice_def sort_Slice_set)

lemma convert_distinct:
  assumes "distinct (map fst conn)"
  shows "distinct (map ar_ip (convertMapToSortedSlice conn))"
proof -
  let ?xs = "map (\<lambda>(k, v). \<lparr>ar_ip = k, ar_relayInfo = v\<rparr>) conn"
  have e: "map ar_ip ?xs = map fst conn" by (simp add: comp_def case_prod_beta)
  have "distinct (map ar_ip ?xs)" unfolding e by (rule assms)
  then show ?thesis
    by (simp only: convertMapToSortedSlice_def sort_Slice_distinct_map)
qed

lemma findRelaysToSwitch_char:
  assumes "distinct (map fst conn)"
    and "(k, cs) \<in> set (findRelaysToSwitch conn fastest)"
  shows "\<exists>info. map_of conn (rts_ip k) = Some info \<and> rts_port k = info_Port info \<and> cs \<noteq> [] \<and>
           cs = takeWhile (\<lambda>p. \<not> f64_lt (info_Latency info) (f64_add (nli_Latency p) latencyThreshold)) fastest"
proof -
  have "distinct (map fst (findRelaysToSwitch conn fastest))"
    by (simp add: findRelaysToSwitch_def outer_distinct)
  with assms(2) have "map_of (findRelaysToSwitch conn fastest) k = Some cs" by simp
  then have "map_of (findRelaysToSwitch_outer (convertMapToSortedSlice conn) fastest []) k = Some cs"
    by (simp add: findRelaysToSwitch_def)
  from outer_char [OF convert_distinct [OF assms(1)] _ this]
  obtain r where r: "r \<in> set (convertMapToSortedSlice conn)"
    "k = \<lparr>rts_ip = ar_ip r, rts_port = info_Port (ar_relayInfo r)\<rparr>" "cs \<noteq> []"
    "cs = takeWhile (\<lambda>p. \<not> f64_lt (info_Latency (ar_relayInfo r)) (f64_add (nli_Latency p) latencyThreshold))
             fastest"
    by auto
  from r(1) have "(ar_ip r, ar_relayInfo r) \<in> set conn" by (auto simp: convert_set)
  with assms(1) have "map_of conn (ar_ip r) = Some (ar_relayInfo r)" by simp
  with r show ?thesis by simp
qed


lemma FindFastestRelays_entry:
  assumes "ins \<in> set (fst (FindFastestRelays s e ex fs ignoredRelays))"
  shows "\<exists>relays fs' conn fastest info.
     getRelays s e ex fs = (Inr relays, fs') \<and>
     findFastestAvailableRelays_loop (s_getPingLatencies s relays)
         (getAutoConnectedRelays ignoredRelays) [] = (conn, fastest) \<and>
     instr_Type ins = Switch \<and> instr_IsStatic ins = False \<and>
     map_of conn (instr_IP ins) = Some info \<and> instr_Port ins = info_Port info \<and>
     RelaysToSwitch ins \<noteq> [] \<and>
     RelaysToSwitch ins =
       takeWhile (\<lambda>p. \<not> f64_lt (info_Latency info) (f64_add (nli_Latency p) latencyThreshold)) fastest"
proof -
  obtain r fs' where g: "getRelays s e ex fs = (r, fs')" by (cases "getRelays s e ex fs")
  show ?thesis
  proof (cases r)
    case (Inl err)
    with g assms show ?thesis by (simp add: FindFastestRelays_def)
  next
    case (Inr relays)
    let ?pings = "s_getPingLatencies s relays"
    obtain conn fastest where
      f: "findFastestAvailableRelays_loop ?pings (getAutoConnectedRelays ignoredRelays) []
            = (conn, fastest)"
      by (cases "findFastestAvailableRelays_loop ?pings (getAutoConnectedRelays ignoredRelays) []")
    from assms g Inr f obtain k cs where
      kc: "(k, cs) \<in> set (findRelaysToSwitch conn fastest)"
      and ins: "ins = \<lparr>instr_IP = rts_ip k, instr_Type = Switch, instr_Port = rts_port k,
                       instr_IsStatic = False, RelaysToSwitch = cs\<rparr>"
      by (auto simp: FindFastestRelays_def findFastestAvailableRelays_def Let_def
               split: if_splits)
    have "distinct (map fst conn)"
      using ffa_distinct [OF f getAutoConnectedRelays_distinct] .
    from findRelaysToSwitch_char [OF this kc] g Inr f ins show ?thesis by auto
  qed
qed

lemmas controller_eval =
  FindFastestRelays_def getRelays_def httpWithCache_def http_def UpdateCacheFile_def
  os_OpenFile_CREATE_WRONLY_def write_at_start_def path_join_def path_Clean_def
  example_sdn_def example_env_def example_fs_def potentialRelaysFileName_def
  getAutoConnectedRelays_def findFastestAvailableRelays_def findRelaysToSwitch_def
  convertMapToSortedSlice_def sort_Slice_def switch_lookup_def

lemma FindFastestRelays_example:
  "fst (FindFastestRelays example_sdn example_env (Response 200 (Body ''[]'')) example_fs
          example_ignored)
   = [\<lparr>instr_IP = ''2.2.2.2'', instr_Type = Switch, instr_Port = 1809, instr_IsStatic = False,
       RelaysToSwitch = [\<lparr>nli_IP = ''4.4.4.4'', nli_Port = 1809, nli_Latency = Finite 3 0\<rparr>,
                         \<lparr>nli_IP = ''5.5.5.5'', nli_Port = 1809, nli_Latency = Finite 10 0\<rparr>]\<rparr>,
      \<lparr>instr_IP = ''1.1.1.1'', instr_Type = Switch, instr_Port = 1809, instr_IsStatic = False,
       RelaysToSwitch = [\<lparr>nli_IP = ''4.4.4.4'', nli_Port = 1809, nli_Latency = Finite 3 0\<rparr>]\<rparr>]"
  by (simp add: controller_eval example_ignored_def f64_eval)

lemma latency_16_016_nearest:
  "\<bar>f64_value latency_16_016 - 16016 / 1000\<bar> < 1 / 2 ^ 49"
  by (simp add: f64_value_def latency_16_016_def)

lemma latency_6_016_nearest:
  "\<bar>f64_value latency_6_016 - 6016 / 1000\<bar> < 1 / 2 ^ 51"
  by (simp add: f64_value_def latency_6_016_def)

lemma latency_sum_rounds: "f64_add latency_6_016 latencyThreshold = latency_16_016"
  by (simp add: f64_eval latency_6_016_def latency_16_016_def)

lemma latency_difference: "f64_sub latency_16_016 latency_6_016 = Finite 5629499534213119 (- 49)"
  by (simp add: f64_eval latency_6_016_def latency_16_016_def)

text \<open>
  C3, as the claim states it, fails. The connected auto relay 1.1.1.1 is probed at
  16.016 ms and the candidate 4.4.4.4 at 6.016 ms. In \<open>float64\<close> the sum of 6.016 and
  10 rounds down to 16.016, so the test \<open>R.latency < C.latency + latencyThreshold\<close> of
  \<open>findRelaysToSwitch\<close> is false and \<open>FindFastestRelays\<close> sends the \<open>Switch\<close> with
  the candidate in its list; yet \<open>R.latency - C.latency\<close> is below 10, as a real
  number and as the \<open>float64\<close> difference.
\<close>

theorem FindFastestRelays_rounding:
  "fst (FindFastestRelays rounding_sdn example_env (Response 200 (Body ''[]'')) example_fs
          rounding_ignored)
     = [\<lparr>instr_IP = ''1.1.1.1'', instr_Type = Switch, instr_Port = 1809, instr_IsStatic = False,
         RelaysToSwitch =
           [\<lparr>nli_IP = ''4.4.4.4'', nli_Port = 1809, nli_Latency = latency_6_016\<rparr>]\<rparr>]
   \<and> fst (findFastestAvailableRelays (s_getPingLatencies rounding_sdn [])
            (getAutoConnectedRelays rounding_ignored))
     = [(''1.1.1.1'', \<lparr>TimeAdded = 0, IsConnected = True, IsStatic = False,
                       info_Port = 1809, info_Latency = latency_16_016\<rparr>)]
   \<and> f64_value latency_16_016 - f64_value latency_6_016 < 10
   \<and> \<not> f64_ge (f64_sub latency_16_016 latency_6_016) (Finite 10 0)"
proof (intro conjI)
  have lt: "\<not> f64_lt latency_16_016 (f64_add latency_6_016 latencyThreshold)"
    by (simp add: latency_sum_rounds) (simp add: f64_lt_def latency_16_016_def)
  show "fst (FindFastestRelays rounding_sdn example_env (Response 200 (Body ''[]'')) example_fs
          rounding_ignored)
     = [\<lparr>instr_IP = ''1.1.1.1'', instr_Type = Switch, instr_Port = 1809, instr_IsStatic = False,
         RelaysToSwitch =
           [\<lparr>nli_IP = ''4.4.4.4'', nli_Port = 1809, nli_Latency = latency_6_016\<rparr>]\<rparr>]"
    by (simp add: controller_eval rounding_sdn_def rounding_ignored_def lt)
  show "fst (findFastestAvailableRelays (s_getPingLatencies rounding_sdn [])
            (getAutoConnectedRelays rounding_ignored))
     = [(''1.1.1.1'', \<lparr>TimeAdded = 0, IsConnected = True, IsStatic = False,
                       info_Port = 1809, info_Latency = latency_16_016\<rparr>)]"
    by (simp add: controller_eval rounding_sdn_def rounding_ignored_def)
  show "f64_value latency_16_016 - f64_value latency_6_016 < 10"
    by (simp add: f64_value_def latency_6_016_def latency_16_016_def)
  show "\<not> f64_ge (f64_sub latency_16_016 latency_6_016) (Finite 10 0)"
    by (simp add: latency_difference) (simp add: f64_ge_def f64_lt_def)
qed

text \<open>
  C3, amended. Every instruction that \<open>FindFastestRelays\<close> sends is a \<open>Switch\<close> for
  a relay R of the connected auto relays, with the latency R has after the probes were
  written into the map. Its list \<open>RelaysToSwitch\<close> is not empty and is the longest
  initial part of the available candidates (the probes that are not connected auto
  relays, in probe order) none of whose members C has
  \<open>R.latency < C.latency + latencyThreshold\<close>, the sum and the comparison being those of
  \<open>float64\<close>; and when no probe is followed by one of smaller latency, the same holds
  of the list.
\<close>

theorem FindFastestRelays_threshold:
  assumes "ins \<in> set (fst (FindFastestRelays s e ex fs ignoredRelays))"
  shows "\<exists>relays fs' conn fastest info.
     getRelays s e ex fs = (Inr relays, fs') \<and>
     findFastestAvailableRelays (s_getPingLatencies s relays)
         (getAutoConnectedRelays ignoredRelays) = (conn, fastest) \<and>
     fastest = filter (\<lambda>p. map_of (getAutoConnectedRelays ignoredRelays) (nli_IP p) = None)
                 (s_getPingLatencies s relays) \<and>
     instr_Type ins = Switch \<and>
     map_of conn (instr_IP ins) = Some info \<and> instr_Port ins = info_Port info \<and>
     RelaysToSwitch ins \<noteq> [] \<and>
     (\<forall>C \<in> set (RelaysToSwitch ins).
         \<not> f64_lt (info_Latency info) (f64_add (nli_Latency C) latencyThreshold)) \<and>
     RelaysToSwitch ins =
       takeWhile (\<lambda>C. \<not> f64_lt (info_Latency info) (f64_add (nli_Latency C) latencyThreshold))
         fastest \<and>
     (sorted_wrt (\<lambda>x y. \<not> f64_lt (nli_Latency y) (nli_Latency x)) (s_getPingLatencies s relays)
        \<longrightarrow> sorted_wrt (\<lambda>x y. \<not> f64_lt (nli_Latency y) (nli_Latency x)) (RelaysToSwitch ins))"
proof -
  from FindFastestRelays_entry [OF assms] obtain relays fs' conn fastest info where
    g: "getRelays s e ex fs = (Inr relays, fs')"
    and f: "findFastestAvailableRelays_loop (s_getPingLatencies s relays)
              (getAutoConnectedRelays ignoredRelays) [] = (conn, fastest)"
    and t: "instr_Type ins = Switch"
    and m: "map_of conn (instr_IP ins) = Some info" "instr_Port ins = info_Port info"
    and ne: "RelaysToSwitch ins \<noteq> []"
    and tw: "RelaysToSwitch ins =
       takeWhile (\<lambda>p. \<not> f64_lt (info_Latency info) (f64_add (nli_Latency p) latencyThreshold))
         fastest"
    by blast
  from tw have all: "\<forall>C \<in> set (RelaysToSwitch ins).
         \<not> f64_lt (info_Latency info) (f64_add (nli_Latency C) latencyThreshold)"
    by (metis (mono_tags, lifting) set_takeWhileD)
  from ffa_fastest [OF f] have
    fa: "fastest = filter (\<lambda>p. map_of (getAutoConnectedRelays ignoredRelays) (nli_IP p) = None)
                 (s_getPingLatencies s relays)" by simp
  have srt: "sorted_wrt (\<lambda>x y. \<not> f64_lt (nli_Latency y) (nli_Latency x)) (RelaysToSwitch ins)"
    if "sorted_wrt (\<lambda>x y. \<not> f64_lt (nli_Latency y) (nli_Latency x)) (s_getPingLatencies s relays)"
  proof -
    from that have "sorted_wrt (\<lambda>x y. \<not> f64_lt (nli_Latency y) (nli_Latency x)) fastest"
      unfolding fa by (rule sorted_wrt_filter)
    then have "sorted_wrt (\<lambda>x y. \<not> f64_lt (nli_Latency y) (nli_Latency x))
                 (takeWhile (\<lambda>p. \<not> f64_lt (info_Latency info)
                                      (f64_add (nli_Latency p) latencyThreshold)) fastest)"
      by (rule sorted_wrt_takeWhile)
    then show ?thesis by (simp only: tw [symmetric])
  qed
  from g f t m ne all tw fa srt show ?thesis
    by (simp add: findFastestAvailableRelays_def)
qed

theorem FindFastestRelays_threshold_witness:
  "\<lparr>instr_IP = ''2.2.2.2'', instr_Type = Switch, instr_Port = 1809, instr_IsStatic = False,
     RelaysToSwitch = [\<lparr>nli_IP = ''4.4.4.4'', nli_Port = 1809, nli_Latency = Finite 3 0\<rparr>,
                       \<lparr>nli_IP = ''5.5.5.5'', nli_Port = 1809, nli_Latency = Finite 10 0\<rparr>]\<rparr>
     \<in> set (fst (FindFastestRelays example_sdn example_env (Response 200 (Body ''[]''))
                   example_fs example_ignored))
   \<and> sorted_wrt (\<lambda>x y. \<not> f64_lt (nli_Latency y) (nli_Latency x))
        (s_getPingLatencies example_sdn [])
   \<and> (\<exists>info :: RelayInfo. info_Port info = 1809 \<and>
         \<not> f64_lt (info_Latency info) (f64_add (Finite 3 0) latencyThreshold) \<and>
         \<not> f64_lt (info_Latency info) (f64_add (Finite 10 0) latencyThreshold))"
proof -
  have mem:
    "\<lparr>instr_IP = ''2.2.2.2'', instr_Type = Switch, instr_Port = 1809, instr_IsStatic = False,
       RelaysToSwitch = [\<lparr>nli_IP = ''4.4.4.4'', nli_Port = 1809, nli_Latency = Finite 3 0\<rparr>,
                         \<lparr>nli_IP = ''5.5.5.5'', nli_Port = 1809, nli_Latency = Finite 10 0\<rparr>]\<rparr>
     \<in> set (fst (FindFastestRelays example_sdn example_env (Response 200 (Body ''[]''))
                   example_fs example_ignored))"
    by (simp add: FindFastestRelays_example)
  have srt: "sorted_wrt (\<lambda>x y. \<not> f64_lt (nli_Latency y) (nli_Latency x))
               (s_getPingLatencies example_sdn [])"
    by (simp add: example_sdn_def f64_lt_def)
  from FindFastestRelays_threshold [OF mem] obtain info :: RelayInfo where
    "1809 = info_Port info"
    "\<not> f64_lt (info_Latency info) (f64_add (Finite 3 0) latencyThreshold)"
    "\<not> f64_lt (info_Latency info) (f64_add (Finite 10 0) latencyThreshold)"
    by auto
  then have "\<exists>info :: RelayInfo. info_Port info = 1809 \<and>
         \<not> f64_lt (info_Latency info) (f64_add (Finite 3 0) latencyThreshold) \<and>
         \<not> f64_lt (info_Latency info) (f64_add (Finite 10 0) latencyThreshold)"
    by metis
  with mem srt show ?thesis by blast
qed

text \<open>
  C4. With an ignored-relays map that holds one entry per key, every instruction that
  \<open>FindFastestRelays\<close> sends is a \<open>Switch\<close> for a relay whose stored entry has
  \<open>IsConnected\<close> true and \<open>IsStatic\<close> false: a static relay is never named.
\<close>

theorem FindFastestRelays_never_static:
  assumes "distinct (map fst ignoredRelays)"
    and "ins \<in> set (fst (FindFastestRelays s e ex fs ignoredRelays))"
  shows "instr_Type ins = Switch \<and> instr_IsStatic ins = False \<and>
         (\<exists>info. map_of ignoredRelays (instr_IP ins) = Some info \<and>
                 IsConnected info \<and> \<not> IsStatic info)"
proof -
  from FindFastestRelays_entry [OF assms(2)] obtain relays conn fastest info where
    f: "findFastestAvailableRelays_loop (s_getPingLatencies s relays)
              (getAutoConnectedRelays ignoredRelays) [] = (conn, fastest)"
    and t: "instr_Type ins = Switch" "instr_IsStatic ins = False"
    and m: "map_of conn (instr_IP ins) = Some info"
    by blast
  from ffa_fields [OF f m] obtain v where
    v: "map_of (getAutoConnectedRelays ignoredRelays) (instr_IP ins) = Some v"
       "IsStatic info = IsStatic v" "IsConnected info = IsConnected v" by blast
  from getAutoConnectedRelays_Some [OF v(1)] have
    "(instr_IP ins, v) \<in> set ignoredRelays" "IsConnected v" "\<not> IsStatic v" by simp_all
  with assms(1) have "map_of ignoredRelays (instr_IP ins) = Some v" by simp
  with t \<open>IsConnected v\<close> \<open>\<not> IsStatic v\<close> show ?thesis by simp
qed

theorem FindFastestRelays_never_static_witness:
  "distinct (map fst example_ignored)
   \<and> \<lparr>instr_IP = ''1.1.1.1'', instr_Type = Switch, instr_Port = 1809, instr_IsStatic = False,
       RelaysToSwitch = [\<lparr>nli_IP = ''4.4.4.4'', nli_Port = 1809, nli_Latency = Finite 3 0\<rparr>]\<rparr>
     \<in> set (fst (FindFastestRelays example_sdn example_env (Response 200 (Body ''[]''))
                   example_fs example_ignored))
   \<and> (\<exists>info. map_of example_ignored ''1.1.1.1'' = Some info \<and>
               IsConnected info \<and> \<not> IsStatic info)"
proof -
  have d: "distinct (map fst example_ignored)"
    by (simp add: example_ignored_def)
  have mem:
    "\<lparr>instr_IP = ''1.1.1.1'', instr_Type = Switch, instr_Port = 1809, instr_IsStatic = False,
       RelaysToSwitch = [\<lparr>nli_IP = ''4.4.4.4'', nli_Port = 1809, nli_Latency = Finite 3 0\<rparr>]\<rparr>
     \<in> set (fst (FindFastestRelays example_sdn example_env (Response 200 (Body ''[]''))
                   example_fs example_ignored))"
    by (simp add: FindFastestRelays_example)
  from FindFastestRelays_never_static [OF d mem] d mem show ?thesis by simp
qed

end
